theory Spec2Isabelle
  imports Main "HOL-Library.Sublist" "HOL-Library.AList"
begin

section \<open>JavaScript strings and values\<close>

text \<open>
  A string is the list of the bytes of its UTF-8 encoding, so the strings of the model
  are the well-formed ones (a lone surrogate has no encoding). Concatenation, equality,
  emptiness and the substring test of \<open>includes\<close> are the same on the bytes as on the
  string, and Firestore orders strings by these bytes.

  \<open>String.prototype.trim\<close> strips, at both ends, the code points of the language's
  white space and line terminator classes: U+0009 to U+000D, U+0020, U+00A0, U+1680,
  U+2000 to U+200A, U+2028, U+2029, U+202F, U+205F, U+3000 and U+FEFF. \<open>white_space\<close>
  lists their encodings in this order. \<open>strip\<close> removes leading members of a list of
  byte sequences; its second argument bounds the number of removals, and the length of
  the string is enough (\<open>strip_done\<close>). The end of the string is stripped on the
  reversed bytes.

  \<open>String.prototype.toLowerCase\<close> follows the case tables of the Unicode version of
  the platform. The tables are not part of the repository: the functions that call
  \<open>toLowerCase\<close> take it as their first argument.

  A string is falsy exactly when it is empty; an optional string (\<open>undefined\<close>, \<open>null\<close>
  or absent is \<^term>\<open>None\<close>) is truthy when it is present and not empty.
\<close>

definition white_space :: "string list" where
  "white_space =
     [[CHR 0x09],
      [CHR 0x0A],
      [CHR 0x0B],
      [CHR 0x0C],
      [CHR 0x0D],
      [CHR 0x20],
      [CHR 0xC2, CHR 0xA0],
      [CHR 0xE1, CHR 0x9A, CHR 0x80],
      [CHR 0xE2, CHR 0x80, CHR 0x80],
      [CHR 0xE2, CHR 0x80, CHR 0x81],
      [CHR 0xE2, CHR 0x80, CHR 0x82],
      [CHR 0xE2, CHR 0x80, CHR 0x83],
      [CHR 0xE2, CHR 0x80, CHR 0x84],
      [CHR 0xE2, CHR 0x80, CHR 0x85],
      [CHR 0xE2, CHR 0x80, CHR 0x86],
      [CHR 0xE2, CHR 0x80, CHR 0x87],
      [CHR 0xE2, CHR 0x80, CHR 0x88],
      [CHR 0xE2, CHR 0x80, CHR 0x89],
      [CHR 0xE2, CHR 0x80, CHR 0x8A],
      [CHR 0xE2, CHR 0x80, CHR 0xA8],
      [CHR 0xE2, CHR 0x80, CHR 0xA9],
      [CHR 0xE2, CHR 0x80, CHR 0xAF],
      [CHR 0xE2, CHR 0x81, CHR 0x9F],
      [CHR 0xE3, CHR 0x80, CHR 0x80],
      [CHR 0xEF, CHR 0xBB, CHR 0xBF]]"

fun strip :: "string list \<Rightarrow> nat \<Rightarrow> string \<Rightarrow> string" where
  "strip seqs 0 s = s"
| "strip seqs (Suc n) s =
     (case find (\<lambda>w. prefix w s) seqs of
        None \<Rightarrow> s
      | Some w \<Rightarrow> strip seqs n (drop (length w) s))"

definition trimStart :: "string \<Rightarrow> string" where
  "trimStart s = strip white_space (length s) s"

definition trimEnd :: "string \<Rightarrow> string" where
  "trimEnd s = rev (strip (map rev white_space) (length s) (rev s))"

definition trim :: "string \<Rightarrow> string" where
  "trim s = trimEnd (trimStart s)"

definition js_includes :: "string \<Rightarrow> string \<Rightarrow> bool" where
  "js_includes s needle = sublist needle s"

definition truthy :: "string option \<Rightarrow> bool" where
  "truthy v = (case v of None \<Rightarrow> False | Some s \<Rightarrow> s \<noteq> [])"

section \<open>The note-generation endpoint (src/app/api/generate-note/route.ts)\<close>

subsection \<open>The template table\<close>

definition template_hmhi_transfer :: string where
  "template_hmhi_transfer =
     ''You are a HIPAA-compliant AI clinical documentation assistant for Dr. Rufus Sweeney, a PGY-3 psychiatry resident at HMHI Downtown Clinic.\<newline>'' @
     ''\<newline>'' @
     ''Generate a comprehensive transfer of care note for outpatient psychiatry.\<newline>'' @
     ''\<newline>'' @
     ''CRITICAL: HMHI Downtown uses Epic EMR - include relevant Epic SmartPhrases and @SMARTPHRASE@ syntax where appropriate.\<newline>'' @
     ''\<newline>'' @
     ''For transfer of care notes, follow these specific guidelines:\<newline>'' @
     ''1. Copy forward unchanged sections from the previous note when appropriate\<newline>'' @
     ''2. Update only sections that have new information from the session\<newline>'' @
     ''3. Maintain continuity of care documentation\<newline>'' @
     ''4. Use Epic-compatible formatting and SmartPhrases''"

definition template_hmhi_followup :: string where
  "template_hmhi_followup =
     ''You are a HIPAA-compliant AI clinical documentation assistant for Dr. Rufus Sweeney, a PGY-3 psychiatry resident at HMHI Downtown Clinic.\<newline>'' @
     ''\<newline>'' @
     ''Generate a concise but comprehensive outpatient psychiatry follow-up note.\<newline>'' @
     ''\<newline>'' @
     ''CRITICAL: HMHI Downtown uses Epic EMR - include relevant Epic SmartPhrases and @SMARTPHRASE@ syntax where appropriate.''"

definition template_dbh_intake :: string where
  "template_dbh_intake =
     ''You are a HIPAA-compliant AI clinical documentation assistant for Dr. Rufus Sweeney, a PGY-3 psychiatry resident at Davis Behavioral Health.\<newline>'' @
     ''\<newline>'' @
     ''Generate a comprehensive Credible EMR-compatible outpatient psychiatry intake assessment.\<newline>'' @
     ''\<newline>'' @
     ''CRITICAL: Davis Behavioral Health uses Credible EMR - output PLAIN TEXT ONLY. Do NOT use Epic SmartPhrases, @SMARTPHRASE@ syntax, or .dotphrases.\<newline>'' @
     ''\<newline>'' @
     ''Structure the note with comprehensive intake sections including detailed psychiatric history, mental status exam, and treatment plan.''"

definition template_dbh_followup :: string where
  "template_dbh_followup =
     ''You are a HIPAA-compliant AI clinical documentation assistant for Dr. Rufus Sweeney, a PGY-3 psychiatry resident at Davis Behavioral Health.\<newline>'' @
     ''\<newline>'' @
     ''Generate a Credible EMR-compatible outpatient psychiatry follow-up note.\<newline>'' @
     ''\<newline>'' @
     ''CRITICAL: Davis Behavioral Health uses Credible EMR - output PLAIN TEXT ONLY. Do NOT use Epic SmartPhrases, @SMARTPHRASE@ syntax, or .dotphrases.''"

definition template_redwood_intake :: string where
  "template_redwood_intake =
     ''You are a HIPAA-compliant AI clinical documentation assistant for Dr. Rufus Sweeney, a PGY-3 psychiatry resident at Redwood Clinic MH Integration.\<newline>'' @
     ''\<newline>'' @
     ''Generate a mental health integration intake note for primary care setting.\<newline>'' @
     ''\<newline>'' @
     ''Use clear, accessible language appropriate for integrated care documentation.''"

definition template_redwood_followup :: string where
  "template_redwood_followup =
     ''You are a HIPAA-compliant AI clinical documentation assistant for Dr. Rufus Sweeney, a PGY-3 psychiatry resident at Redwood Clinic MH Integration.\<newline>'' @
     ''\<newline>'' @
     ''Generate a mental health integration follow-up note for primary care setting.\<newline>'' @
     ''\<newline>'' @
     ''Use clear, accessible language appropriate for integrated care documentation.''"

definition CONTEXT_PROMPTS :: "(string \<times> string) list" where
  "CONTEXT_PROMPTS =
     [(''hmhi-transfer'', template_hmhi_transfer),
      (''hmhi-followup'', template_hmhi_followup),
      (''dbh-intake'', template_dbh_intake),
      (''dbh-followup'', template_dbh_followup),
      (''redwood-intake'', template_redwood_intake),
      (''redwood-followup'', template_redwood_followup)]"

text \<open>
  \<open>CONTEXT_PROMPTS\<close> is an object literal, so a property read \<open>CONTEXT_PROMPTS[k]\<close>
  finds the six own properties first and then the properties every plain object inherits
  from \<open>Object.prototype\<close>: eleven built-in functions and the accessor \<open>__proto__\<close>,
  which gives the prototype object. Any other key reads as \<open>undefined\<close>. A template
  literal renders a built-in function as its source text and a plain object as
  \<open>[object Object]\<close>.
\<close>

datatype jsvalue = JString string | JFunction string | JObject

definition Object_prototype :: "string \<Rightarrow> jsvalue option" where
  "Object_prototype k =
     (if k = ''constructor'' then Some (JFunction ''Object'')
      else if k = ''__proto__'' then Some JObject
      else if k \<in> set [''__defineGetter__'', ''__defineSetter__'', ''hasOwnProperty'',
                        ''__lookupGetter__'', ''__lookupSetter__'', ''isPrototypeOf'',
                        ''propertyIsEnumerable'', ''toString'', ''valueOf'',
                        ''toLocaleString'']
      then Some (JFunction k)
      else None)"

definition get_property :: "(string \<times> string) list \<Rightarrow> string \<Rightarrow> jsvalue option" where
  "get_property obj k =
     (case map_of obj k of Some s \<Rightarrow> Some (JString s) | None \<Rightarrow> Object_prototype k)"

fun js_truthy :: "jsvalue option \<Rightarrow> bool" where
  "js_truthy None = False"
| "js_truthy (Some (JString s)) = (s \<noteq> [])"
| "js_truthy (Some (JFunction n)) = True"
| "js_truthy (Some JObject) = True"

fun to_text :: "jsvalue \<Rightarrow> string" where
  "to_text (JString s) = s"
| "to_text (JFunction n) = ''function '' @ n @ ''() { [native code] }''"
| "to_text JObject = ''[object Object]''"

text \<open>
  The request body after \<open>request.json()\<close>: every field may be absent, and a field
  that is present has the type the interface declares for it. The field \<open>context\<close> is
  \<open>context_key\<close> here. A context that is absent is used as the property key
  \<open>undefined\<close>.
\<close>

record PatientContext =
  patientId :: string
  patientName :: string
  patientMRN :: "string option"
  patientDOB :: "string option"
  patientGender :: "string option"

record note_request =
  transcript :: "string option"
  context_key :: "string option"
  previousNote :: "string option"
  patientContext :: "PatientContext option"

definition property_key :: "string option \<Rightarrow> string" where
  "property_key c = (case c of None \<Rightarrow> ''undefined'' | Some k \<Rightarrow> k)"

definition systemPrompt :: "string option \<Rightarrow> jsvalue" where
  "systemPrompt c =
     (let v = get_property CONTEXT_PROMPTS (property_key c)
      in if js_truthy v then the v else JString template_hmhi_transfer)"

subsection \<open>Composing the prompt\<close>

text \<open>
  The handler builds the prompt in one mutable variable: the initial text with the
  template and the transcript, then the three conditional appends of the patient block,
  the append of the previous note, and the closing line.
\<close>

definition initial_prompt :: "string option \<Rightarrow> string \<Rightarrow> string" where
  "initial_prompt c t =
     to_text (systemPrompt c) @ ''\<newline>\<newline>TRANSCRIPT:\<newline>'' @ t"

definition add_patient_context :: "string \<Rightarrow> PatientContext option \<Rightarrow> string" where
  "add_patient_context prompt pc =
     (case pc of
        None \<Rightarrow> prompt
      | Some p \<Rightarrow>
          (let prompt1 = prompt @ ''\<newline>\<newline>PATIENT INFORMATION:\<newline>Name: '' @ patientName p;
               prompt2 = (if truthy (patientMRN p)
                          then prompt1 @ ''\<newline>MRN: '' @ the (patientMRN p) else prompt1);
               prompt3 = (if truthy (patientDOB p)
                          then prompt2 @ ''\<newline>Date of Birth: '' @ the (patientDOB p)
                          else prompt2);
               prompt4 = (if truthy (patientGender p)
                          then prompt3 @ ''\<newline>Gender: '' @ the (patientGender p)
                          else prompt3)
           in prompt4))"

definition add_previous_note :: "string \<Rightarrow> string option \<Rightarrow> string option \<Rightarrow> string" where
  "add_previous_note prompt c pn =
     (if c = Some ''hmhi-transfer'' \<and> truthy pn
      then prompt @ ''\<newline>\<newline>PREVIOUS PATIENT NOTE:\<newline>'' @ the pn
      else prompt)"

definition closing_instruction :: string where
  "closing_instruction = ''\<newline>\<newline>Generate the clinical note now:''"

definition compose_prompt ::
  "string option \<Rightarrow> string \<Rightarrow> string option \<Rightarrow> PatientContext option \<Rightarrow> string" where
  "compose_prompt c t pn pc =
     (let prompt = initial_prompt c t;
          prompt = add_patient_context prompt pc;
          prompt = add_previous_note prompt c pn
      in prompt @ closing_instruction)"

subsection \<open>The handler\<close>

text \<open>
  \<open>POST\<close> takes the configured credential (\<open>process.env.GOOGLE_GEMINI_API_KEY\<close>), the
  external generator (a prompt gives a text, or the call throws: \<^term>\<open>None\<close>) and the
  parsed body (\<^term>\<open>None\<close> when \<open>request.json()\<close> throws). It returns the response
  and the prompts that were passed to the generator. A response built without a status
  has status 200.
\<close>

datatype body = ErrorBody string | NoteBody string "PatientContext option"

datatype response = JsonResponse (status_code: nat) (payload: body)

definition POST ::
  "string option \<Rightarrow> (string \<Rightarrow> string option) \<Rightarrow> note_request option
     \<Rightarrow> response \<times> string list" where
  "POST api_key generateContent request =
     (case request of
        None \<Rightarrow> (JsonResponse 500 (ErrorBody ''Failed to generate note''), [])
      | Some r \<Rightarrow>
          if \<not> truthy (transcript r)
          then (JsonResponse 400 (ErrorBody ''Transcript is required''), [])
          else if \<not> truthy api_key
          then (JsonResponse 500 (ErrorBody ''Gemini API key not configured''), [])
          else
            (let prompt = compose_prompt (context_key r) (the (transcript r)) (previousNote r)
                            (patientContext r)
             in case generateContent prompt of
                  None \<Rightarrow> (JsonResponse 500 (ErrorBody ''Failed to generate note''), [prompt])
                | Some note \<Rightarrow> (JsonResponse 200 (NoteBody note (patientContext r)), [prompt])))"

section \<open>The patient directory service (src/lib/firebase/patient-service.ts)\<close>

subsection \<open>Request types (src/lib/types/patient.ts)\<close>

text \<open>
  The unions of string literals are datatypes with the string each value stands for.
  The fields of \<open>UpdatePatientRequest\<close> carry the prefix \<open>upd_\<close>, since two records
  cannot share field names; an optional field that is \<open>undefined\<close> is \<^term>\<open>None\<close>.
\<close>

datatype gender = Male | Female | Other | PreferNotToSay

fun gender_string :: "gender \<Rightarrow> string" where
  "gender_string Male = ''male''"
| "gender_string Female = ''female''"
| "gender_string Other = ''other''"
| "gender_string PreferNotToSay = ''prefer-not-to-say''"

datatype patient_status = Active | Inactive

fun status_string :: "patient_status \<Rightarrow> string" where
  "status_string Active = ''active''"
| "status_string Inactive = ''inactive''"

datatype sort_field = SortName | SortCreatedAt | SortLastModified

fun sort_field_name :: "sort_field \<Rightarrow> string" where
  "sort_field_name SortName = ''name''"
| "sort_field_name SortCreatedAt = ''createdAt''"
| "sort_field_name SortLastModified = ''lastModified''"

datatype sort_order = Asc | Desc

record CreatePatientRequest =
  name :: string
  mrn :: "string option"
  dob :: "string option"
  gender :: "gender option"

record UpdatePatientRequest =
  upd_name :: "string option"
  upd_mrn :: "string option"
  upd_dob :: "string option"
  upd_gender :: "gender option"
  upd_status :: "patient_status option"

record PatientSearchFilters =
  searchTerm :: "string option"
  status :: "patient_status option"
  sortBy :: "sort_field option"
  sortOrder :: "sort_order option"

subsection \<open>The document store\<close>

text \<open>
  A Firestore document is a finite map from field names to values; the service stores
  strings, timestamps and (in the earlier revision) \<open>null\<close>. A JavaScript object
  returned to the caller has the same shape. The collection is a list of identifiers
  with their documents, read through \<^const>\<open>map_of\<close>. The state also holds the
  clock that \<open>serverTimestamp()\<close> and \<open>new Date()\<close> read, whether the backend
  rejects calls (network failure, missing index, denied permission), and the log of the
  SDK calls made so far.
\<close>

datatype fval = FNull | FStr string | FTime nat

type_synonym document = "string \<rightharpoonup> fval"

datatype fs_call = GetDoc string | GetDocs | SetDoc string | UpdateDoc string

datatype error = Error string

record firestore =
  docs :: "(string \<times> document) list"
  clock :: nat
  offline :: bool
  calls :: "fs_call list"

definition log_call :: "fs_call \<Rightarrow> firestore \<Rightarrow> firestore" where
  "log_call c fs = fs\<lparr>calls := calls fs @ [c]\<rparr>"

definition serverTimestamp :: "firestore \<Rightarrow> fval" where
  "serverTimestamp fs = FTime (clock fs)"

definition getDoc :: "string \<Rightarrow> firestore \<Rightarrow> (error + document option) \<times> firestore" where
  "getDoc pid fs =
     (if offline fs then Inl (Error ''unavailable'') else Inr (map_of (docs fs) pid),
      log_call (GetDoc pid) fs)"

definition setDoc :: "string \<Rightarrow> document \<Rightarrow> firestore \<Rightarrow> (error + unit) \<times> firestore" where
  "setDoc pid d fs =
     (if offline fs then (Inl (Error ''unavailable''), log_call (SetDoc pid) fs)
      else (Inr (), log_call (SetDoc pid) (fs\<lparr>docs := AList.update pid d (docs fs)\<rparr>)))"

definition updateDoc :: "string \<Rightarrow> document \<Rightarrow> firestore \<Rightarrow> (error + unit) \<times> firestore" where
  "updateDoc pid upd fs =
     (if offline fs then (Inl (Error ''unavailable''), log_call (UpdateDoc pid) fs)
      else case map_of (docs fs) pid of
             None \<Rightarrow> (Inl (Error ''not-found''), log_call (UpdateDoc pid) fs)
           | Some d \<Rightarrow>
               (Inr (), log_call (UpdateDoc pid)
                          (fs\<lparr>docs := AList.update pid (d ++ upd) (docs fs)\<rparr>)))"

text \<open>
  A query is a list of equality filters, an ordering field and a direction. Firestore
  returns the documents that satisfy every filter and have the ordering field, sorted by
  the field's value (null before timestamps before strings) and then by identifier.
\<close>

fun string_le :: "string \<Rightarrow> string \<Rightarrow> bool" where
  "string_le [] ys = True"
| "string_le (x # xs) [] = False"
| "string_le (x # xs) (y # ys) =
     ((of_char x :: nat) < of_char y \<or> (x = y \<and> string_le xs ys))"

fun fval_le :: "fval \<Rightarrow> fval \<Rightarrow> bool" where
  "fval_le FNull v = True"
| "fval_le (FTime t) FNull = False"
| "fval_le (FTime t) (FTime u) = (t \<le> u)"
| "fval_le (FTime t) (FStr s) = True"
| "fval_le (FStr s) (FStr u) = string_le s u"
| "fval_le (FStr s) v = False"

definition order_le :: "string \<Rightarrow> string \<times> document \<Rightarrow> string \<times> document \<Rightarrow> bool" where
  "order_le field a b =
     (case (snd a field, snd b field) of
        (Some v, Some w) \<Rightarrow> fval_le v w \<and> (fval_le w v \<longrightarrow> string_le (fst a) (fst b))
      | _ \<Rightarrow> True)"

fun insert_by :: "('a \<Rightarrow> 'a \<Rightarrow> bool) \<Rightarrow> 'a \<Rightarrow> 'a list \<Rightarrow> 'a list" where
  "insert_by le x [] = [x]"
| "insert_by le x (y # ys) = (if le x y then x # y # ys else y # insert_by le x ys)"

definition sort_by :: "('a \<Rightarrow> 'a \<Rightarrow> bool) \<Rightarrow> 'a list \<Rightarrow> 'a list" where
  "sort_by le xs = foldr (insert_by le) xs []"

definition matches :: "(string \<times> fval) list \<Rightarrow> document \<Rightarrow> bool" where
  "matches wheres d = list_all (\<lambda>(field, v). d field = Some v) wheres"

definition getDocs ::
  "(string \<times> fval) list \<Rightarrow> string \<Rightarrow> sort_order \<Rightarrow> firestore
     \<Rightarrow> (error + (string \<times> document) list) \<times> firestore" where
  "getDocs wheres field direction fs =
     (if offline fs then Inl (Error ''unavailable'')
      else
        (let hits = filter (\<lambda>(pid, d). matches wheres d \<and> d field \<noteq> None)
                      (AList.clearjunk (docs fs));
             ascending = sort_by (order_le field) hits
         in Inr (case direction of Asc \<Rightarrow> ascending | Desc \<Rightarrow> rev ascending)),
      log_call GetDocs fs)"

subsection \<open>Reading\<close>

text \<open>
  \<open>data.createdAt?.toDate() || new Date()\<close>: a missing or null field gives the current
  time, a timestamp gives its date, and a string has no \<open>toDate\<close>, so the call throws
  (\<^term>\<open>None\<close>). The object returned is \<open>{id, ...data, createdAt, lastModified}\<close>.
\<close>

definition toDate_or_now :: "fval option \<Rightarrow> nat \<Rightarrow> fval option" where
  "toDate_or_now v now =
     (case v of
        None \<Rightarrow> Some (FTime now)
      | Some FNull \<Rightarrow> Some (FTime now)
      | Some (FTime t) \<Rightarrow> Some (FTime t)
      | Some (FStr s) \<Rightarrow> None)"

definition to_patient :: "nat \<Rightarrow> string \<Rightarrow> document \<Rightarrow> document option" where
  "to_patient now pid data =
     (case toDate_or_now (data ''createdAt'') now of
        None \<Rightarrow> None
      | Some created \<Rightarrow>
          (case toDate_or_now (data ''lastModified'') now of
             None \<Rightarrow> None
           | Some modified \<Rightarrow>
               Some (([''id'' \<mapsto> FStr pid] ++ data)
                       (''createdAt'' \<mapsto> created, ''lastModified'' \<mapsto> modified))))"

definition getPatient :: "string \<Rightarrow> string \<Rightarrow> firestore \<Rightarrow> document option \<times> firestore" where
  "getPatient userId patient_id fs =
     (case getDoc patient_id fs of
        (Inl e, fs1) \<Rightarrow> (None, fs1)
      | (Inr None, fs1) \<Rightarrow> (None, fs1)
      | (Inr (Some data), fs1) \<Rightarrow>
          if data ''createdBy'' \<noteq> Some (FStr userId) then (None, fs1)
          else (to_patient (clock fs1) patient_id data, fs1))"

text \<open>
  The repository also keeps an earlier revision of the service. Its \<open>getPatient\<close>
  nests the same tests the other way round; its \<open>getPatients\<close> and \<open>searchPatients\<close>
  are the same text as the current ones, so the definitions below stand for both.
\<close>

definition getPatient_earlier ::
  "string \<Rightarrow> string \<Rightarrow> firestore \<Rightarrow> document option \<times> firestore" where
  "getPatient_earlier userId patient_id fs =
     (case getDoc patient_id fs of
        (Inl e, fs1) \<Rightarrow> (None, fs1)
      | (Inr (Some data), fs1) \<Rightarrow>
          if data ''createdBy'' \<noteq> Some (FStr userId) then (None, fs1)
          else (to_patient (clock fs1) patient_id data, fs1)
      | (Inr None, fs1) \<Rightarrow> (None, fs1))"

text \<open>
  The client-side filter of \<open>getPatients\<close>: \<open>patient.name.toLowerCase()\<close> throws unless
  the name is a string; the MRN is looked at only when the name does not match, is
  skipped when falsy, and throws when it is truthy and not a string.
\<close>

definition matches_search ::
  "(string \<Rightarrow> string) \<Rightarrow> string \<Rightarrow> document \<Rightarrow> bool option" where
  "matches_search toLowerCase term p =
     (case p ''name'' of
        Some (FStr n) \<Rightarrow>
          if js_includes (toLowerCase n) term then Some True
          else (case p ''mrn'' of
                  Some (FStr m) \<Rightarrow>
                    if m = [] then Some False else Some (js_includes (toLowerCase m) term)
                | Some (FTime t) \<Rightarrow> None
                | _ \<Rightarrow> Some False)
      | _ \<Rightarrow> None)"

fun filter_patients ::
  "(string \<Rightarrow> string) \<Rightarrow> string \<Rightarrow> document list \<Rightarrow> document list option" where
  "filter_patients toLowerCase term [] = Some []"
| "filter_patients toLowerCase term (p # ps) =
     (case matches_search toLowerCase term p of
        None \<Rightarrow> None
      | Some b \<Rightarrow>
          (case filter_patients toLowerCase term ps of
             None \<Rightarrow> None
           | Some rest \<Rightarrow> Some (if b then p # rest else rest)))"

definition getPatients ::
  "(string \<Rightarrow> string) \<Rightarrow> string \<Rightarrow> PatientSearchFilters \<Rightarrow> firestore
     \<Rightarrow> document list \<times> firestore" where
  "getPatients toLowerCase userId filters fs =
     (let q = [(''createdBy'', FStr userId)];
          q = (case status filters of
                 None \<Rightarrow> q
               | Some s \<Rightarrow> q @ [(''status'', FStr (status_string s))]);
          sortField = (case sortBy filters of
                         None \<Rightarrow> ''lastModified'' | Some f \<Rightarrow> sort_field_name f);
          sortDirection = (case sortOrder filters of None \<Rightarrow> Desc | Some d \<Rightarrow> d)
      in case getDocs q sortField sortDirection fs of
           (Inl e, fs1) \<Rightarrow> ([], fs1)
         | (Inr querySnapshot, fs1) \<Rightarrow>
             (case those (map (\<lambda>(pid, data). to_patient (clock fs1) pid data) querySnapshot) of
                None \<Rightarrow> ([], fs1)
              | Some patients \<Rightarrow>
                  if truthy (searchTerm filters)
                  then (case filter_patients toLowerCase
                               (trim (toLowerCase (the (searchTerm filters)))) patients of
                          None \<Rightarrow> ([], fs1)
                        | Some found \<Rightarrow> (found, fs1))
                  else (patients, fs1)))"

text \<open>
  \<open>patients.slice(0, maxResults)\<close>: a negative end counts from the end of the array.
\<close>

definition slice0 :: "'a list \<Rightarrow> int \<Rightarrow> 'a list" where
  "slice0 xs n = (if n < 0 then take (nat (int (length xs) + n)) xs else take (nat n) xs)"

definition searchPatients ::
  "(string \<Rightarrow> string) \<Rightarrow> string \<Rightarrow> string \<Rightarrow> int \<Rightarrow> firestore
     \<Rightarrow> document list \<times> firestore" where
  "searchPatients toLowerCase userId term maxResults fs =
     (if trim term = [] then ([], fs)
      else
        (case getPatients toLowerCase userId
                \<lparr>searchTerm = Some (trim term), status = Some Active,
                 sortBy = Some SortName, sortOrder = Some Asc\<rparr> fs of
           (patients, fs1) \<Rightarrow> (slice0 patients maxResults, fs1)))"

subsection \<open>Writing\<close>

text \<open>
  \<open>doc(this.collectionRef)\<close> makes a reference with a fresh random identifier; the
  identifier it made is the first argument of \<open>createPatient\<close>. Every value of the
  gender type is a non-empty string, the test the code makes on it.
\<close>

definition createPatient ::
  "string \<Rightarrow> string \<Rightarrow> CreatePatientRequest \<Rightarrow> firestore
     \<Rightarrow> (error + document) \<times> firestore" where
  "createPatient newId userId patientData fs =
     (if trim (name patientData) = []
      then (Inl (Error (''Failed to create patient: '' @ ''Patient name is required'')), fs)
      else if userId = []
      then (Inl (Error (''Failed to create patient: ''
                          @ ''User ID is required for patient creation'')), fs)
      else
        (let basePatient = [''name'' \<mapsto> FStr (trim (name patientData)),
                            ''createdBy'' \<mapsto> FStr userId,
                            ''status'' \<mapsto> FStr ''active''];
             optionalFields = Map.empty;
             optionalFields = (if truthy (map_option trim (mrn patientData))
                               then optionalFields(''mrn'' \<mapsto> FStr (trim (the (mrn patientData))))
                               else optionalFields);
             optionalFields = (if truthy (map_option trim (dob patientData))
                               then optionalFields(''dob'' \<mapsto> FStr (trim (the (dob patientData))))
                               else optionalFields);
             optionalFields = (if truthy (map_option gender_string (gender patientData))
                               then optionalFields
                                      (''gender'' \<mapsto> FStr (gender_string (the (gender patientData))))
                               else optionalFields);
             patientToSave = (basePatient ++ optionalFields)
                               (''createdAt'' \<mapsto> serverTimestamp fs,
                                ''lastModified'' \<mapsto> serverTimestamp fs)
         in case setDoc newId patientToSave fs of
              (Inl (Error message), fs1) \<Rightarrow>
                (Inl (Error (''Failed to create patient: '' @ message)), fs1)
            | (Inr u, fs1) \<Rightarrow>
                (Inr (([''id'' \<mapsto> FStr newId] ++ basePatient ++ optionalFields)
                        (''createdAt'' \<mapsto> FTime (clock fs1),
                         ''lastModified'' \<mapsto> FTime (clock fs1))), fs1)))"

text \<open>
  The earlier revision of \<open>createPatient\<close> validates nothing, trims the name and the
  MRN and takes the date of birth and the gender as they are. It builds one object with
  every field, \<open>undefined\<close> for an optional field that is falsy; reading such a property
  gives what reading an absent one gives, so the object of the model leaves it out.
  Firestore refuses an object with an \<open>undefined\<close> value unless its setting
  \<open>ignoreUndefinedProperties\<close> is on; the setting is in \<open>./config\<close>, which the
  repository does not include, so it is the first argument here. Every failure is
  reported with one message.
\<close>

definition createPatient_earlier ::
  "bool \<Rightarrow> string \<Rightarrow> string \<Rightarrow> CreatePatientRequest \<Rightarrow> firestore
     \<Rightarrow> (error + document) \<times> firestore" where
  "createPatient_earlier ignoreUndefinedProperties newId userId patientData fs =
     (let patient = [''name'' \<mapsto> FStr (trim (name patientData)),
                     ''createdBy'' \<mapsto> FStr userId,
                     ''createdAt'' \<mapsto> FTime (clock fs),
                     ''lastModified'' \<mapsto> FTime (clock fs),
                     ''status'' \<mapsto> FStr ''active''];
          patient = (if truthy (map_option trim (mrn patientData))
                     then patient(''mrn'' \<mapsto> FStr (trim (the (mrn patientData))))
                     else patient);
          patient = (if truthy (dob patientData)
                     then patient(''dob'' \<mapsto> FStr (the (dob patientData)))
                     else patient);
          patient = (if truthy (map_option gender_string (gender patientData))
                     then patient(''gender'' \<mapsto> FStr (gender_string (the (gender patientData))))
                     else patient);
          all_defined = (truthy (map_option trim (mrn patientData))
                         \<and> truthy (dob patientData)
                         \<and> truthy (map_option gender_string (gender patientData)))
      in if \<not> all_defined \<and> \<not> ignoreUndefinedProperties
         then (Inl (Error ''Failed to create patient''), log_call (SetDoc newId) fs)
         else
           (case setDoc newId (patient(''createdAt'' \<mapsto> serverTimestamp fs,
                                       ''lastModified'' \<mapsto> serverTimestamp fs)) fs of
              (Inl e, fs1) \<Rightarrow> (Inl (Error ''Failed to create patient''), fs1)
            | (Inr u, fs1) \<Rightarrow> (Inr ([''id'' \<mapsto> FStr newId] ++ patient), fs1)))"

text \<open>
  \<open>updatePatient\<close> first reads the record through \<open>getPatient\<close>, then builds the object
  \<open>updateData\<close> field by field and passes it to \<open>updateDoc\<close>. The construction of
  \<open>updateData\<close> is a function of its own here, given the timestamp and the request.
\<close>

definition build_updateData :: "fval \<Rightarrow> UpdatePatientRequest \<Rightarrow> document" where
  "build_updateData timestamp updates =
     (let updateData = [''lastModified'' \<mapsto> timestamp];
          updateData = (case upd_name updates of
                          None \<Rightarrow> updateData
                        | Some n \<Rightarrow>
                            if trim n \<noteq> [] then updateData(''name'' \<mapsto> FStr (trim n))
                            else updateData);
          updateData = (case upd_mrn updates of
                          None \<Rightarrow> updateData
                        | Some m \<Rightarrow>
                            if trim m \<noteq> [] then updateData(''mrn'' \<mapsto> FStr (trim m))
                            else updateData);
          updateData = (case upd_dob updates of
                          None \<Rightarrow> updateData
                        | Some d \<Rightarrow>
                            if trim d \<noteq> [] then updateData(''dob'' \<mapsto> FStr (trim d))
                            else updateData);
          updateData = (case upd_gender updates of
                          None \<Rightarrow> updateData
                        | Some g \<Rightarrow>
                            if gender_string g \<noteq> []
                            then updateData(''gender'' \<mapsto> FStr (gender_string g))
                            else updateData);
          updateData = (case upd_status updates of
                          None \<Rightarrow> updateData
                        | Some s \<Rightarrow> updateData(''status'' \<mapsto> FStr (status_string s)))
      in updateData)"

definition updatePatient ::
  "string \<Rightarrow> string \<Rightarrow> UpdatePatientRequest \<Rightarrow> firestore \<Rightarrow> (error + unit) \<times> firestore" where
  "updatePatient userId patient_id updates fs =
     (case getPatient userId patient_id fs of
        (None, fs1) \<Rightarrow>
          (Inl (Error (''Failed to update patient: ''
                         @ ''Patient not found or access denied'')), fs1)
      | (Some existingPatient, fs1) \<Rightarrow>
          (case updateDoc patient_id (build_updateData (serverTimestamp fs1) updates) fs1 of
             (Inl (Error message), fs2) \<Rightarrow>
               (Inl (Error (''Failed to update patient: '' @ message)), fs2)
           | (Inr u, fs2) \<Rightarrow> (Inr (), fs2)))"

text \<open>
  The earlier revision writes every field that is not \<open>undefined\<close>, with \<open>null\<close> for a
  value that is empty, and reports every failure with one message.
\<close>

definition build_updateData_earlier :: "fval \<Rightarrow> UpdatePatientRequest \<Rightarrow> document" where
  "build_updateData_earlier timestamp updates =
     (let updateData = [''lastModified'' \<mapsto> timestamp];
          updateData = (case upd_name updates of
                          None \<Rightarrow> updateData
                        | Some n \<Rightarrow> updateData(''name'' \<mapsto> FStr (trim n)));
          updateData = (case upd_mrn updates of
                          None \<Rightarrow> updateData
                        | Some m \<Rightarrow>
                            updateData(''mrn'' \<mapsto> (if trim m \<noteq> [] then FStr (trim m)
                                                    else FNull)));
          updateData = (case upd_dob updates of
                          None \<Rightarrow> updateData
                        | Some d \<Rightarrow>
                            updateData(''dob'' \<mapsto> (if d \<noteq> [] then FStr d else FNull)));
          updateData = (case upd_gender updates of
                          None \<Rightarrow> updateData
                        | Some g \<Rightarrow>
                            updateData(''gender'' \<mapsto> (if gender_string g \<noteq> []
                                                       then FStr (gender_string g)
                                                       else FNull)));
          updateData = (case upd_status updates of
                          None \<Rightarrow> updateData
                        | Some s \<Rightarrow> updateData(''status'' \<mapsto> FStr (status_string s)))
      in updateData)"

definition updatePatient_earlier ::
  "string \<Rightarrow> string \<Rightarrow> UpdatePatientRequest \<Rightarrow> firestore \<Rightarrow> (error + unit) \<times> firestore" where
  "updatePatient_earlier userId patient_id updates fs =
     (case getPatient_earlier userId patient_id fs of
        (None, fs1) \<Rightarrow> (Inl (Error ''Failed to update patient''), fs1)
      | (Some existingPatient, fs1) \<Rightarrow>
          (case updateDoc patient_id (build_updateData_earlier (serverTimestamp fs1) updates)
                  fs1 of
             (Inl e, fs2) \<Rightarrow> (Inl (Error ''Failed to update patient''), fs2)
           | (Inr u, fs2) \<Rightarrow> (Inr (), fs2)))"

definition deactivatePatient :: "string \<Rightarrow> string \<Rightarrow> firestore \<Rightarrow> (error + unit) \<times> firestore" where
  "deactivatePatient userId patient_id fs =
     updatePatient userId patient_id
       \<lparr>upd_name = None, upd_mrn = None, upd_dob = None, upd_gender = None,
        upd_status = Some Inactive\<rparr> fs"

definition reactivatePatient :: "string \<Rightarrow> string \<Rightarrow> firestore \<Rightarrow> (error + unit) \<times> firestore" where
  "reactivatePatient userId patient_id fs =
     updatePatient userId patient_id
       \<lparr>upd_name = None, upd_mrn = None, upd_dob = None, upd_gender = None,
        upd_status = Some Active\<rparr> fs"

subsection \<open>Sequences of directory operations\<close>

text \<open>
  A history of the directory is a list of calls of the service, mixed with the events of
  its environment: the backend going away or coming back, and time passing.
\<close>

datatype operation =
    Create string string CreatePatientRequest
  | Read string string
  | Listing string PatientSearchFilters
  | Search string string int
  | Update string string UpdatePatientRequest
  | Deactivate string string
  | Reactivate string string
  | Outage bool
  | Tick

fun step :: "(string \<Rightarrow> string) \<Rightarrow> operation \<Rightarrow> firestore \<Rightarrow> firestore" where
  "step toLowerCase (Create newId userId patientData) fs =
     snd (createPatient newId userId patientData fs)"
| "step toLowerCase (Read userId patient_id) fs = snd (getPatient userId patient_id fs)"
| "step toLowerCase (Listing userId filters) fs = snd (getPatients toLowerCase userId filters fs)"
| "step toLowerCase (Search userId term maxResults) fs =
     snd (searchPatients toLowerCase userId term maxResults fs)"
| "step toLowerCase (Update userId patient_id updates) fs =
     snd (updatePatient userId patient_id updates fs)"
| "step toLowerCase (Deactivate userId patient_id) fs = snd (deactivatePatient userId patient_id fs)"
| "step toLowerCase (Reactivate userId patient_id) fs = snd (reactivatePatient userId patient_id fs)"
| "step toLowerCase (Outage down) fs = fs\<lparr>offline := down\<rparr>"
| "step toLowerCase Tick fs = fs\<lparr>clock := Suc (clock fs)\<rparr>"

definition run :: "(string \<Rightarrow> string) \<Rightarrow> operation list \<Rightarrow> firestore \<Rightarrow> firestore" where
  "run toLowerCase ops fs = fold (step toLowerCase) ops fs"

definition stored_field :: "firestore \<Rightarrow> string \<Rightarrow> string \<Rightarrow> fval option" where
  "stored_field fs pid field =
     (case map_of (docs fs) pid of None \<Rightarrow> None | Some d \<Rightarrow> d field)"

definition valid_statuses :: "firestore \<Rightarrow> bool" where
  "valid_statuses fs =
     list_all (\<lambda>(pid, d). d ''status'' = Some (FStr ''active'')
                          \<or> d ''status'' = Some (FStr ''inactive'')) (docs fs)"

text \<open>
  The change of status that an operation makes in a state: a creation that succeeds
  gives the new record the status active; an update that succeeds and carries a status
  gives its record that status, and \<open>deactivatePatient\<close> and \<open>reactivatePatient\<close> are
  such updates. An operation that is refused or fails, and every other operation, makes
  no change. \<open>status_history\<close> collects the changes along a history, in order, and
  \<open>last_change\<close> is the last status a history gave to a record, if any.
\<close>

fun status_change :: "operation \<Rightarrow> firestore \<Rightarrow> (string \<times> patient_status) option" where
  "status_change (Create newId userId patientData) fs =
     (case fst (createPatient newId userId patientData fs) of
        Inl e \<Rightarrow> None
      | Inr p \<Rightarrow> Some (newId, Active))"
| "status_change (Update userId patient_id updates) fs =
     (case fst (updatePatient userId patient_id updates fs) of
        Inl e \<Rightarrow> None
      | Inr u \<Rightarrow> map_option (Pair patient_id) (upd_status updates))"
| "status_change (Deactivate userId patient_id) fs =
     (case fst (deactivatePatient userId patient_id fs) of
        Inl e \<Rightarrow> None
      | Inr u \<Rightarrow> Some (patient_id, Inactive))"
| "status_change (Reactivate userId patient_id) fs =
     (case fst (reactivatePatient userId patient_id fs) of
        Inl e \<Rightarrow> None
      | Inr u \<Rightarrow> Some (patient_id, Active))"
| "status_change other fs = None"

fun status_history ::
  "(string \<Rightarrow> string) \<Rightarrow> operation list \<Rightarrow> firestore \<Rightarrow> (string \<times> patient_status) list" where
  "status_history toLowerCase [] fs = []"
| "status_history toLowerCase (op # ops) fs =
     (case status_change op fs of None \<Rightarrow> [] | Some c \<Rightarrow> [c])
     @ status_history toLowerCase ops (step toLowerCase op fs)"

definition last_change :: "string \<Rightarrow> (string \<times> patient_status) list \<Rightarrow> patient_status option" where
  "last_change pid changes = fold (\<lambda>(k, s) found. if k = pid then Some s else found) changes None"

subsection \<open>An example directory\<close>

text \<open>
  The strings of the examples are ASCII. On ASCII strings \<open>toLowerCase\<close> maps the
  capitals A to Z to the small letters and leaves every other character;
  \<open>ascii_toLowerCase\<close> is that function, with the bytes above 127 left as they are.
\<close>

definition lower_char :: "char \<Rightarrow> char" where
  "lower_char c =
     (let n = (of_char c :: nat) in if 65 \<le> n \<and> n \<le> 90 then char_of (n + 32) else c)"

definition ascii_toLowerCase :: "string \<Rightarrow> string" where
  "ascii_toLowerCase s = map lower_char s"

definition doc_jane :: document where
  "doc_jane = [''name'' \<mapsto> FStr ''Jane Doe'', ''createdBy'' \<mapsto> FStr ''u1'',
               ''status'' \<mapsto> FStr ''active'', ''createdAt'' \<mapsto> FTime 0,
               ''lastModified'' \<mapsto> FTime 0]"

definition doc_bob :: document where
  "doc_bob = [''name'' \<mapsto> FStr ''Bob'', ''mrn'' \<mapsto> FStr ''12a'',
              ''createdBy'' \<mapsto> FStr ''u1'', ''status'' \<mapsto> FStr ''active'',
              ''createdAt'' \<mapsto> FTime 1, ''lastModified'' \<mapsto> FTime 1]"

definition doc_rob :: document where
  "doc_rob = [''name'' \<mapsto> FStr ''Rob'', ''createdBy'' \<mapsto> FStr ''u2'',
              ''status'' \<mapsto> FStr ''active'', ''createdAt'' \<mapsto> FTime 1,
              ''lastModified'' \<mapsto> FTime 1]"

definition example_store :: firestore where
  "example_store =
     \<lparr>docs = [(''p1'', doc_jane), (''p2'', doc_bob), (''p3'', doc_rob)],
      clock = 2, offline = False, calls = []\<rparr>"

section \<open>The sections of the prompt, as the specification words them\<close>

definition spec_transcript_section :: "string \<Rightarrow> string" where
  "spec_transcript_section t = ''\<newline>\<newline>TRANSCRIPT:\<newline>'' @ t"

definition spec_patient_lines :: "PatientContext \<Rightarrow> string list" where
  "spec_patient_lines p =
     (''Name: '' @ patientName p) #
     map (\<lambda>(label, v). label @ '': '' @ the v)
       (filter (\<lambda>(label, v). truthy v)
          [(''MRN'', patientMRN p), (''Date of Birth'', patientDOB p),
           (''Gender'', patientGender p)])"

definition spec_patient_block :: "PatientContext \<Rightarrow> string" where
  "spec_patient_block p =
     ''\<newline>\<newline>PATIENT INFORMATION:'' @
     concat (map (\<lambda>l. ''\<newline>'' @ l) (spec_patient_lines p))"

definition spec_previous_note_block :: "string \<Rightarrow> string" where
  "spec_previous_note_block n = ''\<newline>\<newline>PREVIOUS PATIENT NOTE:\<newline>'' @ n"

definition spec_prompt_sections ::
  "string option \<Rightarrow> string \<Rightarrow> string option \<Rightarrow> PatientContext option \<Rightarrow> string list" where
  "spec_prompt_sections c t pn pc =
     [to_text (systemPrompt c), spec_transcript_section t]
     @ (case pc of None \<Rightarrow> [] | Some p \<Rightarrow> [spec_patient_block p])
     @ (if c = Some ''hmhi-transfer'' \<and> truthy pn then [spec_previous_note_block (the pn)] else [])
     @ [closing_instruction]"

section \<open>Properties of trimming\<close>

text \<open>
  Stripping a string as many times as it has bytes leaves nothing to strip, when no
  member of the list is empty: the bound on the removals never cuts the stripping short.
\<close>

lemma strip_done:
  assumes "\<forall>w \<in> set seqs. w \<noteq> []" "length s \<le> n"
  shows "find (\<lambda>w. prefix w (strip seqs n s)) seqs = None"
  using assms
proof (induction n arbitrary: s)
  case 0
  then show ?case by (auto simp add: find_None_iff)
next
  case (Suc n)
  show ?case
  proof (cases "find (\<lambda>w. prefix w s) seqs")
    case None
    then show ?thesis by simp
  next
    case (Some w)
    then have "w \<in> set seqs" "prefix w s"
      by (auto simp add: find_Some_iff)
    with Suc.prems have "w \<noteq> []" by blast
    with \<open>prefix w s\<close> Suc.prems(2) have "length (drop (length w) s) \<le> n"
      by (cases w; cases s) auto
    with Suc.IH Suc.prems(1) Some show ?thesis by simp
  qed
qed

lemma white_space_nonempty: "\<forall>w \<in> set white_space. w \<noteq> []"
  by (simp add: white_space_def)

lemma trimStart_done: "find (\<lambda>w. prefix w (trimStart s)) white_space = None"
  unfolding trimStart_def by (rule strip_done [OF white_space_nonempty]) simp

section \<open>Properties of the note-generation endpoint\<close>

subsection \<open>Template selection\<close>

lemma template_nonempty:
  "template_hmhi_transfer \<noteq> []" "template_hmhi_followup \<noteq> []" "template_dbh_intake \<noteq> []"
  "template_dbh_followup \<noteq> []" "template_redwood_intake \<noteq> []" "template_redwood_followup \<noteq> []"
  by (simp_all add: template_hmhi_transfer_def template_hmhi_followup_def template_dbh_intake_def
        template_dbh_followup_def template_redwood_intake_def template_redwood_followup_def)

lemma systemPrompt_own:
  assumes "(k, t) \<in> set CONTEXT_PROMPTS"
  shows "systemPrompt (Some k) = JString t"
  using assms
  by (auto simp add: CONTEXT_PROMPTS_def systemPrompt_def get_property_def property_key_def
        template_nonempty)

lemma systemPrompt_unknown:
  assumes "map_of CONTEXT_PROMPTS (property_key c) = None"
    and "Object_prototype (property_key c) = None"
  shows "systemPrompt c = JString template_hmhi_transfer"
  using assms by (simp add: systemPrompt_def get_property_def)

lemma compose_prompt_sections:
  "compose_prompt c t pn pc =
     add_previous_note (add_patient_context (initial_prompt c t) pc) c pn @ closing_instruction"
  by (simp add: compose_prompt_def)

lemma add_patient_context_append:
  "add_patient_context prompt pc = prompt @ add_patient_context [] pc"
  by (simp add: add_patient_context_def Let_def split: option.splits)

lemma add_previous_note_append:
  "add_previous_note prompt c pn = prompt @ add_previous_note [] c pn"
  by (simp add: add_previous_note_def)

lemma compose_prompt_begins:
  "prefix (to_text (systemPrompt c)) (compose_prompt c t pn pc)"
  unfolding compose_prompt_sections
  apply (subst add_previous_note_append)
  apply (subst add_patient_context_append)
  apply (simp add: initial_prompt_def)
  done

text \<open>
  The part of the template claim that holds: each of the six keys selects its own
  template, and a key that is neither one of the six nor a property inherited from
  \<open>Object.prototype\<close> selects the transfer-of-care template.
\<close>

lemma prompt_begins_with_own_template:
  assumes "(k, t) \<in> set CONTEXT_PROMPTS"
  shows "prefix t (compose_prompt (Some k) tr pn pc)"
  using compose_prompt_begins [of "Some k" tr pn pc] systemPrompt_own [OF assms] by simp

lemma prompt_begins_with_default_template:
  assumes "map_of CONTEXT_PROMPTS (property_key c) = None"
    and "Object_prototype (property_key c) = None"
  shows "prefix template_hmhi_transfer (compose_prompt c tr pn pc)"
  using compose_prompt_begins [of c tr pn pc] systemPrompt_unknown [OF assms] by simp

text \<open>
  Claim C3. For each of the six context keys the prompt begins with that key's template,
  and for every other context value it begins with the transfer-of-care template. The
  second half fails on the code: \<open>CONTEXT_PROMPTS[context] || CONTEXT_PROMPTS['hmhi-transfer']\<close>
  falls back only when the property read is falsy, and the context \<open>constructor\<close> reads
  the function \<open>Object\<close> that every object inherits. The prompt then begins with the
  text of that function and not with the transfer-of-care template.
\<close>

theorem inherited_key_selects_no_template:
  "compose_prompt (Some ''constructor'') t pn pc =
     ''function Object() { [native code] }'' @ ''\<newline>\<newline>TRANSCRIPT:\<newline>'' @ t
       @ add_patient_context [] pc @ closing_instruction
   \<and> \<not> prefix template_hmhi_transfer (compose_prompt (Some ''constructor'') t pn pc)"
proof -
  have sp: "systemPrompt (Some ''constructor'') = JFunction ''Object''"
    by (simp add: systemPrompt_def get_property_def property_key_def CONTEXT_PROMPTS_def
          Object_prototype_def)
  have np: "add_previous_note p (Some ''constructor'') pn = p" for p
    by (simp add: add_previous_note_def)
  have eq: "compose_prompt (Some ''constructor'') t pn pc =
     ''function Object() { [native code] }'' @ ''\<newline>\<newline>TRANSCRIPT:\<newline>'' @ t
       @ add_patient_context [] pc @ closing_instruction"
    unfolding compose_prompt_sections np
    by (subst add_patient_context_append) (simp add: initial_prompt_def sp)
  have "\<not> prefix template_hmhi_transfer (''function Object() { [native code] }'' @ r)" for r
    by (simp add: template_hmhi_transfer_def)
  with eq show ?thesis by metis
qed

subsection \<open>The sections of the prompt\<close>

lemma add_patient_context_block:
  "add_patient_context prompt (Some p) = prompt @ spec_patient_block p"
  by (simp add: add_patient_context_def spec_patient_block_def spec_patient_lines_def Let_def)

lemma add_patient_context_None: "add_patient_context prompt None = prompt"
  by (simp add: add_patient_context_def)

text \<open>
  Claim C5. For every context key, transcript, optional patient snapshot and optional
  prior note, the prompt is the concatenation, in this order, of the selected template,
  the transcript section with the transcript verbatim, the patient block (only when a
  snapshot was supplied), the previous-note block (only for the transfer-of-care context
  with a non-empty prior note) and the closing instruction, which ends the prompt.
\<close>

theorem prompt_section_order:
  "compose_prompt c t pn pc = concat (spec_prompt_sections c t pn pc)
   \<and> hd (spec_prompt_sections c t pn pc) = to_text (systemPrompt c)
   \<and> last (spec_prompt_sections c t pn pc) = closing_instruction
   \<and> suffix closing_instruction (compose_prompt c t pn pc)"
proof -
  have "compose_prompt c t pn pc = concat (spec_prompt_sections c t pn pc)"
  proof (cases pc)
    case None
    then show ?thesis
      by (simp add: compose_prompt_sections add_patient_context_None add_previous_note_def
            spec_prompt_sections_def initial_prompt_def spec_transcript_section_def
            spec_previous_note_block_def)
  next
    case (Some p)
    then show ?thesis
      by (simp add: compose_prompt_sections add_patient_context_block add_previous_note_def
            spec_prompt_sections_def initial_prompt_def spec_transcript_section_def
            spec_previous_note_block_def)
  qed
  moreover have "suffix closing_instruction (compose_prompt c t pn pc)"
    by (simp add: compose_prompt_sections suffix_def)
  moreover have "hd (spec_prompt_sections c t pn pc) = to_text (systemPrompt c)"
    by (simp add: spec_prompt_sections_def)
  moreover have "last (spec_prompt_sections c t pn pc) = closing_instruction"
    by (simp add: spec_prompt_sections_def)
  ultimately show ?thesis by simp
qed

theorem prompt_section_order_witness:
  "compose_prompt (Some ''nowhere'') ''hello'' (Some ''old'')
     (Some \<lparr>patientId = ''p1'', patientName = ''Jane'', patientMRN = Some ''7'',
            patientDOB = None, patientGender = Some []\<rparr>)
   = template_hmhi_transfer @ ''\<newline>\<newline>TRANSCRIPT:\<newline>hello''
     @ ''\<newline>\<newline>PATIENT INFORMATION:\<newline>Name: Jane\<newline>MRN: 7''
     @ ''\<newline>\<newline>Generate the clinical note now:''"
proof -
  have sp: "systemPrompt (Some ''nowhere'') = JString template_hmhi_transfer"
    by (rule systemPrompt_unknown)
       (simp_all add: property_key_def CONTEXT_PROMPTS_def Object_prototype_def)
  show ?thesis
    using prompt_section_order [of "Some ''nowhere''" "''hello''" "Some ''old''"
        "Some \<lparr>patientId = ''p1'', patientName = ''Jane'', patientMRN = Some ''7'',
            patientDOB = None, patientGender = Some []\<rparr>"]
    by (simp add: sp spec_prompt_sections_def spec_transcript_section_def spec_patient_block_def
          spec_patient_lines_def truthy_def closing_instruction_def)
qed

text \<open>
  Claim C6. The patient block that a snapshot adds to the prompt, between the transcript
  and whatever follows, is the header, the name line and one line for each of MRN, date
  of birth and gender that is present and non-empty, in that order. When all three are
  absent or empty the block is the header and the name line alone.
\<close>

theorem patient_block_fields:
  "compose_prompt c t pn (Some p) =
     initial_prompt c t @ spec_patient_block p @ add_previous_note [] c pn @ closing_instruction
   \<and> (\<not> truthy (patientMRN p) \<and> \<not> truthy (patientDOB p) \<and> \<not> truthy (patientGender p)
        \<longrightarrow> spec_patient_lines p = [''Name: '' @ patientName p]
          \<and> spec_patient_block p =
              ''\<newline>\<newline>PATIENT INFORMATION:\<newline>Name: '' @ patientName p)"
proof -
  have "compose_prompt c t pn (Some p) =
     initial_prompt c t @ spec_patient_block p @ add_previous_note [] c pn @ closing_instruction"
    unfolding compose_prompt_sections
    by (subst add_previous_note_append) (simp add: add_patient_context_block)
  then show ?thesis
    by (simp add: spec_patient_block_def spec_patient_lines_def)
qed

theorem patient_block_fields_witness:
  "compose_prompt (Some ''dbh-intake'') ''hello'' None
     (Some \<lparr>patientId = ''p1'', patientName = ''Jane'', patientMRN = None,
            patientDOB = Some [], patientGender = None\<rparr>)
   = template_dbh_intake @ ''\<newline>\<newline>TRANSCRIPT:\<newline>hello''
     @ ''\<newline>\<newline>PATIENT INFORMATION:\<newline>Name: Jane''
     @ ''\<newline>\<newline>Generate the clinical note now:''"
proof -
  have sp: "systemPrompt (Some ''dbh-intake'') = JString template_dbh_intake"
    by (rule systemPrompt_own) (simp add: CONTEXT_PROMPTS_def)
  show ?thesis
    using patient_block_fields [of "Some ''dbh-intake''" "''hello''" None
        "\<lparr>patientId = ''p1'', patientName = ''Jane'', patientMRN = None,
            patientDOB = Some [], patientGender = None\<rparr>"]
    by (simp add: sp initial_prompt_def truthy_def add_previous_note_def closing_instruction_def)
qed

subsection \<open>The previous note\<close>

text \<open>
  Claim C4, as stated: the prompt contains the previous-note block exactly when the
  context is transfer of care and a non-empty previous note was supplied, and for every
  other context a supplied previous note appears nowhere in the prompt. The text of a
  note can reach the prompt through the transcript: with the context \<open>dbh-intake\<close>, a
  transcript that quotes the block and the previous note \<open>old note\<close>, the prompt contains
  both the note and the block.
\<close>

theorem previous_note_coincidence:
  "Some ''dbh-intake'' \<noteq> Some ''hmhi-transfer''
   \<and> sublist ''old note''
        (compose_prompt (Some ''dbh-intake'')
           (''visit'' @ spec_previous_note_block ''old note'') (Some ''old note'') None)
   \<and> sublist (spec_previous_note_block ''old note'')
        (compose_prompt (Some ''dbh-intake'')
           (''visit'' @ spec_previous_note_block ''old note'') (Some ''old note'') None)"
proof -
  let ?t = "''visit'' @ spec_previous_note_block ''old note''"
  have eq: "compose_prompt (Some ''dbh-intake'') ?t (Some ''old note'') None =
      (to_text (systemPrompt (Some ''dbh-intake'')) @ ''\<newline>\<newline>TRANSCRIPT:\<newline>visit'')
      @ spec_previous_note_block ''old note'' @ closing_instruction"
    by (simp add: compose_prompt_sections add_patient_context_None add_previous_note_def
          initial_prompt_def)
  have blk: "sublist (spec_previous_note_block ''old note'')
      (compose_prompt (Some ''dbh-intake'') ?t (Some ''old note'') None)"
    unfolding eq by (rule sublist_appendI)
  have "sublist ''old note'' (spec_previous_note_block ''old note'')"
    unfolding spec_previous_note_block_def
    using sublist_appendI [of "''old note''" "''\<newline>\<newline>PREVIOUS PATIENT NOTE:\<newline>''" "[]"]
    by simp
  then have "sublist ''old note''
      (compose_prompt (Some ''dbh-intake'') ?t (Some ''old note'') None)"
    using blk sublist_order.order_trans by blast
  with blk show ?thesis by simp
qed

text \<open>
  Claim C4, amended. When the context is transfer of care and a non-empty previous note
  was supplied, the prompt is the prompt so far, then the previous-note block with the
  note verbatim, then the closing instruction. In every other case no block is appended:
  the prompt is the one composed without any previous note, so a note supplied with
  another context contributes nothing to it.
\<close>

theorem previous_note_only_on_transfer:
  "(c = Some ''hmhi-transfer'' \<and> truthy pn \<longrightarrow>
      compose_prompt c t pn pc =
        add_patient_context (initial_prompt c t) pc @ spec_previous_note_block (the pn)
          @ closing_instruction)
   \<and> (\<not> (c = Some ''hmhi-transfer'' \<and> truthy pn) \<longrightarrow>
      compose_prompt c t pn pc = compose_prompt c t None pc)
   \<and> compose_prompt c t None pc =
        add_patient_context (initial_prompt c t) pc @ closing_instruction"
  by (simp add: compose_prompt_sections add_previous_note_def spec_previous_note_block_def
        truthy_def)

theorem previous_note_only_on_transfer_witness:
  "compose_prompt (Some ''hmhi-transfer'') ''hello'' (Some ''old'') None =
     template_hmhi_transfer @ ''\<newline>\<newline>TRANSCRIPT:\<newline>hello''
       @ ''\<newline>\<newline>PREVIOUS PATIENT NOTE:\<newline>old''
       @ ''\<newline>\<newline>Generate the clinical note now:''
   \<and> compose_prompt (Some ''hmhi-followup'') ''hello'' (Some ''old'') None =
     template_hmhi_followup @ ''\<newline>\<newline>TRANSCRIPT:\<newline>hello''
       @ ''\<newline>\<newline>Generate the clinical note now:''"
proof -
  have sp1: "systemPrompt (Some ''hmhi-transfer'') = JString template_hmhi_transfer"
    by (rule systemPrompt_own) (simp add: CONTEXT_PROMPTS_def)
  have sp2: "systemPrompt (Some ''hmhi-followup'') = JString template_hmhi_followup"
    by (rule systemPrompt_own) (simp add: CONTEXT_PROMPTS_def)
  show ?thesis
    using previous_note_only_on_transfer [of "Some ''hmhi-transfer''" "Some ''old''" "''hello''" None]
      previous_note_only_on_transfer [of "Some ''hmhi-followup''" "Some ''old''" "''hello''" None]
    by (simp add: sp1 sp2 truthy_def add_patient_context_None initial_prompt_def
          spec_previous_note_block_def closing_instruction_def)
qed

subsection \<open>Validation of the transcript\<close>

text \<open>
  The part of the validation claim that holds: a missing or empty transcript is answered
  with status 400 and the generator is not called.
\<close>

lemma POST_missing_transcript:
  assumes "transcript r = None \<or> transcript r = Some []"
  shows "POST api_key generateContent (Some r) =
           (JsonResponse 400 (ErrorBody ''Transcript is required''), [])"
  using assms by (auto simp add: POST_def truthy_def)

lemma POST_nonempty_transcript:
  assumes "transcript r = Some t" "t \<noteq> []" "truthy api_key"
  shows "snd (POST api_key generateContent (Some r)) =
           [compose_prompt (context_key r) t (previousNote r) (patientContext r)]"
    and "status_code (fst (POST api_key generateContent (Some r))) \<noteq> 400"
  using assms by (auto simp add: POST_def truthy_def Let_def split: option.splits)

text \<open>
  Claim C1. A transcript that is empty or only white space is answered with status 400
  and the generator is never called. The handler tests \<open>!transcript\<close> without trimming,
  so a transcript of three spaces passes the test: with a credential configured the
  prompt is composed, the generator is called with it, and its note is returned with
  status 200.
\<close>

theorem POST_whitespace_transcript:
  "trim ''   '' = [] \<and>
   POST (Some ''key'') (\<lambda>prompt. Some ''note'')
     (Some \<lparr>transcript = Some ''   '', context_key = Some ''hmhi-followup'',
            previousNote = None, patientContext = None\<rparr>)
   = (JsonResponse 200 (NoteBody ''note'' None),
      [compose_prompt (Some ''hmhi-followup'') ''   '' None None])"
  by (simp add: POST_def truthy_def trim_def trimStart_def trimEnd_def white_space_def)

section \<open>Properties of the patient directory service\<close>

subsection \<open>Reading and querying\<close>

lemma getPatient_earlier_eq: "getPatient_earlier userId pid fs = getPatient userId pid fs"
  by (simp add: getPatient_earlier_def getPatient_def split: prod.splits sum.splits option.splits)

lemma getPatient_docs: "docs (snd (getPatient userId pid fs)) = docs fs"
  by (simp add: getPatient_def getDoc_def log_call_def split: option.splits)

lemma getPatient_other_owner:
  assumes "map_of (docs fs) pid = Some d" "d ''createdBy'' \<noteq> Some (FStr userId)"
  shows "fst (getPatient userId pid fs) = None"
  using assms by (simp add: getPatient_def getDoc_def)

lemma to_patient_field:
  assumes "to_patient now pid d = Some p" "f \<noteq> ''id''" "f \<noteq> ''createdAt''" "f \<noteq> ''lastModified''"
  shows "p f = d f"
  using assms
  by (auto simp add: to_patient_def map_add_def split: option.splits)

lemma those_map_Some:
  "those (map f xs) = Some ys \<Longrightarrow> y \<in> set ys \<Longrightarrow> \<exists>x \<in> set xs. f x = Some y"
proof (induction xs arbitrary: ys)
  case Nil
  then show ?case by simp
next
  case (Cons a xs)
  then show ?case by (auto split: option.splits)
qed

lemma filter_patients_subset:
  "filter_patients toLowerCase t ps = Some found \<Longrightarrow> set found \<subseteq> set ps"
  by (induction ps arbitrary: found) (auto split: option.splits if_splits)

lemma set_insert_by: "set (insert_by le x xs) = insert x (set xs)"
  by (induction xs) auto

lemma set_sort_by: "set (sort_by le xs) = set xs"
  by (induction xs) (simp_all add: sort_by_def set_insert_by)

lemma getDocs_hits:
  assumes "getDocs wheres field direction fs = (Inr snapshot, fs1)" "(pid, d) \<in> set snapshot"
  shows "matches wheres d \<and> map_of (docs fs) pid = Some d"
proof -
  from assms have mem: "(pid, d) \<in> set (AList.clearjunk (docs fs))" and m: "matches wheres d"
    by (auto simp add: getDocs_def Let_def set_sort_by split: if_splits sort_order.splits)
  have "map_of (AList.clearjunk (docs fs)) pid = Some d"
    using mem by (simp add: distinct_clearjunk)
  then have "map_of (docs fs) pid = Some d"
    by (simp add: map_of_clearjunk)
  with m show ?thesis by simp
qed

lemma getDocs_state: "snd (getDocs wheres field direction fs) = log_call GetDocs fs"
  by (simp add: getDocs_def)

lemma getPatients_docs: "docs (snd (getPatients toLowerCase userId filters fs)) = docs fs"
  by (simp add: getPatients_def getDocs_def log_call_def Let_def split: option.splits)

lemma getPatients_member:
  assumes "p \<in> set (fst (getPatients toLowerCase userId filters fs))"
  shows "\<exists>pid d. map_of (docs fs) pid = Some d \<and> to_patient (clock fs) pid d = Some p
           \<and> d ''createdBy'' = Some (FStr userId)
           \<and> (\<forall>s. status filters = Some s \<longrightarrow> d ''status'' = Some (FStr (status_string s)))"
proof -
  define q where "q = [(''createdBy'', FStr userId)]
      @ (case status filters of None \<Rightarrow> [] | Some s \<Rightarrow> [(''status'', FStr (status_string s))])"
  define sortField where "sortField = (case sortBy filters of
      None \<Rightarrow> ''lastModified'' | Some f \<Rightarrow> sort_field_name f)"
  define sortDirection where "sortDirection = (case sortOrder filters of None \<Rightarrow> Desc | Some d \<Rightarrow> d)"
  obtain r fs1 where g: "getDocs q sortField sortDirection fs = (r, fs1)"
    by (cases "getDocs q sortField sortDirection fs")
  have fs1: "fs1 = log_call GetDocs fs"
    using g getDocs_state [of q sortField sortDirection fs] by simp
  have unfold: "getPatients toLowerCase userId filters fs =
     (case (r, fs1) of
           (Inl e, fs1) \<Rightarrow> ([], fs1)
         | (Inr querySnapshot, fs1) \<Rightarrow>
             (case those (map (\<lambda>(pid, data). to_patient (clock fs1) pid data) querySnapshot) of
                None \<Rightarrow> ([], fs1)
              | Some patients \<Rightarrow>
                  if truthy (searchTerm filters)
                  then (case filter_patients toLowerCase
                               (trim (toLowerCase (the (searchTerm filters)))) patients of
                          None \<Rightarrow> ([], fs1)
                        | Some found \<Rightarrow> (found, fs1))
                  else (patients, fs1)))"
    unfolding getPatients_def Let_def g [symmetric] q_def sortField_def sortDirection_def
    by (simp split: option.splits)
  from assms obtain snapshot patients where
    r: "r = Inr snapshot" and
    th: "those (map (\<lambda>(pid, data). to_patient (clock fs1) pid data) snapshot) = Some patients" and
    p: "p \<in> set patients"
    unfolding unfold
    by (auto split: sum.splits option.splits if_splits dest: filter_patients_subset)
  from those_map_Some [OF th p] obtain pid d where
    mem: "(pid, d) \<in> set snapshot" and tp: "to_patient (clock fs1) pid d = Some p"
    by auto
  from getDocs_hits [OF g [unfolded r] mem] have m: "matches q d" and l: "map_of (docs fs) pid = Some d"
    by simp_all
  have "d ''createdBy'' = Some (FStr userId)"
    using m by (simp add: q_def matches_def)
  moreover have "\<forall>s. status filters = Some s \<longrightarrow> d ''status'' = Some (FStr (status_string s))"
    using m by (auto simp add: q_def matches_def)
  moreover have "clock fs1 = clock fs"
    by (simp add: fs1 log_call_def)
  ultimately show ?thesis using l tp by auto
qed

lemma set_update_subset: "set (AList.update k v al) \<subseteq> insert (k, v) (set al)"
  by (induction al) auto

lemma createPatient_effect:
  assumes "createPatient newId userId pd fs = (r, fs1)"
  shows "(\<exists>e. r = Inl e \<and> docs fs1 = docs fs)
       \<or> (\<exists>p d. r = Inr p \<and> docs fs1 = AList.update newId d (docs fs)
              \<and> d ''status'' = Some (FStr ''active''))"
  using assms
  by (auto simp add: createPatient_def setDoc_def log_call_def Let_def map_add_def
      split: if_splits)

lemma build_updateData_status:
  "build_updateData ts updates ''status'' =
     map_option (\<lambda>s. FStr (status_string s)) (upd_status updates)"
  by (simp add: build_updateData_def Let_def split: option.splits)

lemma build_updateData_mrn:
  "build_updateData ts updates ''mrn'' =
     (case upd_mrn updates of
        None \<Rightarrow> None
      | Some m \<Rightarrow> if trim m \<noteq> [] then Some (FStr (trim m)) else None)"
  by (simp add: build_updateData_def Let_def split: option.splits)

lemma build_updateData_earlier_mrn:
  "build_updateData_earlier ts updates ''mrn'' =
     (case upd_mrn updates of
        None \<Rightarrow> None
      | Some m \<Rightarrow> Some (if trim m \<noteq> [] then FStr (trim m) else FNull))"
  by (simp add: build_updateData_earlier_def Let_def split: option.splits)

lemma updateDoc_effect:
  "updateDoc pid u fs =
     (if \<not> offline fs \<and> map_of (docs fs) pid \<noteq> None
      then (Inr (), log_call (UpdateDoc pid)
                      (fs\<lparr>docs := AList.update pid (the (map_of (docs fs) pid) ++ u) (docs fs)\<rparr>))
      else (Inl (Error (if offline fs then ''unavailable'' else ''not-found'')),
            log_call (UpdateDoc pid) fs))"
  by (auto simp add: updateDoc_def split: option.splits)

lemma updatePatient_effect:
  "updatePatient userId pid updates fs =
     (case map_of (docs fs) pid of
        Some d \<Rightarrow>
          if \<not> offline fs \<and> d ''createdBy'' = Some (FStr userId)
               \<and> to_patient (clock fs) pid d \<noteq> None
          then (Inr (), log_call (UpdateDoc pid) (log_call (GetDoc pid)
                  (fs\<lparr>docs := AList.update pid (d ++ build_updateData (FTime (clock fs)) updates)
                                (docs fs)\<rparr>)))
          else (Inl (Error ''Failed to update patient: Patient not found or access denied''),
                log_call (GetDoc pid) fs)
      | None \<Rightarrow> (Inl (Error ''Failed to update patient: Patient not found or access denied''),
                 log_call (GetDoc pid) fs))"
  by (auto simp add: updatePatient_def getPatient_def getDoc_def updateDoc_effect log_call_def
        serverTimestamp_def split: option.splits)

lemma updatePatient_earlier_effect:
  "updatePatient_earlier userId pid updates fs =
     (case map_of (docs fs) pid of
        Some d \<Rightarrow>
          if \<not> offline fs \<and> d ''createdBy'' = Some (FStr userId)
               \<and> to_patient (clock fs) pid d \<noteq> None
          then (Inr (), log_call (UpdateDoc pid) (log_call (GetDoc pid)
                  (fs\<lparr>docs := AList.update pid
                                (d ++ build_updateData_earlier (FTime (clock fs)) updates)
                                (docs fs)\<rparr>)))
          else (Inl (Error ''Failed to update patient''), log_call (GetDoc pid) fs)
      | None \<Rightarrow> (Inl (Error ''Failed to update patient''), log_call (GetDoc pid) fs))"
  by (auto simp add: updatePatient_earlier_def getPatient_earlier_eq getPatient_def getDoc_def
        updateDoc_effect log_call_def serverTimestamp_def split: option.splits)

lemma searchPatients_docs: "docs (snd (searchPatients toLowerCase userId term n fs)) = docs fs"
  using getPatients_docs [of toLowerCase userId _ fs]
  by (simp add: searchPatients_def split: prod.splits) (metis snd_conv)

lemma updatePatient_docs:
  "docs (snd (updatePatient userId pid updates fs)) = docs fs
   \<or> (\<exists>d. map_of (docs fs) pid = Some d
         \<and> docs (snd (updatePatient userId pid updates fs)) =
             AList.update pid (d ++ build_updateData (FTime (clock fs)) updates) (docs fs))"
  by (cases "map_of (docs fs) pid") (simp_all add: updatePatient_effect log_call_def)

lemma map_add_status:
  "(d ++ build_updateData ts updates) ''status'' =
     (case upd_status updates of None \<Rightarrow> d ''status'' | Some s \<Rightarrow> Some (FStr (status_string s)))"
  by (simp add: map_add_def build_updateData_status split: option.splits)

text \<open>
  Every step leaves the collection as it is or replaces one document, and the status of
  the new document is active, inactive or the status of the document it replaces.
\<close>

lemma step_docs:
  "docs (step toLowerCase op fs) = docs fs
   \<or> (\<exists>k d. docs (step toLowerCase op fs) = AList.update k d (docs fs)
         \<and> (d ''status'' = Some (FStr ''active'') \<or> d ''status'' = Some (FStr ''inactive'')
            \<or> (\<exists>d0. map_of (docs fs) k = Some d0 \<and> d ''status'' = d0 ''status'')))"
proof -
  have upd: "docs (snd (updatePatient userId pid updates fs)) = docs fs
   \<or> (\<exists>k d. docs (snd (updatePatient userId pid updates fs)) = AList.update k d (docs fs)
         \<and> (d ''status'' = Some (FStr ''active'') \<or> d ''status'' = Some (FStr ''inactive'')
            \<or> (\<exists>d0. map_of (docs fs) k = Some d0 \<and> d ''status'' = d0 ''status'')))"
    for userId pid updates
  proof -
    from updatePatient_docs [of userId pid updates fs] show ?thesis
    proof
      assume "docs (snd (updatePatient userId pid updates fs)) = docs fs"
      then show ?thesis by simp
    next
      assume "\<exists>d. map_of (docs fs) pid = Some d
         \<and> docs (snd (updatePatient userId pid updates fs)) =
             AList.update pid (d ++ build_updateData (FTime (clock fs)) updates) (docs fs)"
      then obtain d where d: "map_of (docs fs) pid = Some d"
        and u: "docs (snd (updatePatient userId pid updates fs)) =
             AList.update pid (d ++ build_updateData (FTime (clock fs)) updates) (docs fs)"
        by blast
      let ?d = "d ++ build_updateData (FTime (clock fs)) updates"
      have st: "?d ''status'' = Some (FStr ''active'') \<or> ?d ''status'' = Some (FStr ''inactive'')
            \<or> (\<exists>d0. map_of (docs fs) pid = Some d0 \<and> ?d ''status'' = d0 ''status'')"
      proof (cases "upd_status updates")
        case None
        with d show ?thesis by (simp add: map_add_status)
      next
        case (Some s)
        then show ?thesis by (cases s) (simp_all add: map_add_status)
      qed
      show ?thesis
      proof (rule disjI2, rule exI [of _ pid], rule exI [of _ ?d], rule conjI)
        show "docs (snd (updatePatient userId pid updates fs)) = AList.update pid ?d (docs fs)"
          by (rule u)
        show "?d ''status'' = Some (FStr ''active'') \<or> ?d ''status'' = Some (FStr ''inactive'')
            \<or> (\<exists>d0. map_of (docs fs) pid = Some d0 \<and> ?d ''status'' = d0 ''status'')"
          by (rule st)
      qed
    qed
  qed
  show ?thesis
  proof (cases op)
    case (Create newId userId pd)
    obtain r fs1 where c: "createPatient newId userId pd fs = (r, fs1)"
      by (cases "createPatient newId userId pd fs")
    from createPatient_effect [OF c] show ?thesis
      using Create c by auto
  next
    case (Read userId pid)
    then show ?thesis by (simp add: getPatient_docs)
  next
    case (Listing userId filters)
    then show ?thesis by (simp add: getPatients_docs)
  next
    case (Search userId t n)
    then show ?thesis by (simp add: searchPatients_docs)
  next
    case (Update userId pid updates)
    with upd [of userId pid updates] show ?thesis by simp
  next
    case (Deactivate userId pid)
    with upd [of userId pid] show ?thesis by (simp add: deactivatePatient_def)
  next
    case (Reactivate userId pid)
    with upd [of userId pid] show ?thesis by (simp add: reactivatePatient_def)
  next
    case (Outage down)
    then show ?thesis by simp
  next
    case Tick
    then show ?thesis by simp
  qed
qed

lemma step_keeps_ids: "fst ` set (docs fs) \<subseteq> fst ` set (docs (step toLowerCase op fs))"
proof -
  from step_docs [of toLowerCase op fs] show ?thesis
  proof
    assume "docs (step toLowerCase op fs) = docs fs"
    then show ?thesis by simp
  next
    assume "\<exists>k d. docs (step toLowerCase op fs) = AList.update k d (docs fs)
         \<and> (d ''status'' = Some (FStr ''active'') \<or> d ''status'' = Some (FStr ''inactive'')
            \<or> (\<exists>d0. map_of (docs fs) k = Some d0 \<and> d ''status'' = d0 ''status''))"
    then obtain k d where "docs (step toLowerCase op fs) = AList.update k d (docs fs)" by blast
    then have "fst ` set (docs (step toLowerCase op fs)) = {k} \<union> fst ` set (docs fs)"
      by (simp only: dom_update)
    then show ?thesis by blast
  qed
qed

lemma run_keeps_ids: "fst ` set (docs fs) \<subseteq> fst ` set (docs (run toLowerCase ops fs))"
proof (induction ops arbitrary: fs)
  case Nil
  then show ?case by (simp add: run_def)
next
  case (Cons op ops)
  have "fst ` set (docs fs) \<subseteq> fst ` set (docs (step toLowerCase op fs))"
    by (rule step_keeps_ids)
  also have "\<dots> \<subseteq> fst ` set (docs (run toLowerCase ops (step toLowerCase op fs)))"
    by (rule Cons.IH)
  finally show ?case by (simp add: run_def)
qed

lemma valid_statuses_iff:
  "valid_statuses fs \<longleftrightarrow>
     (\<forall>(pid, d) \<in> set (docs fs). d ''status'' = Some (FStr ''active'')
                                  \<or> d ''status'' = Some (FStr ''inactive''))"
  by (simp add: valid_statuses_def list_all_iff)

lemma step_valid_statuses:
  assumes "valid_statuses fs"
  shows "valid_statuses (step toLowerCase op fs)"
proof -
  from step_docs [of toLowerCase op fs] show ?thesis
  proof
    assume "docs (step toLowerCase op fs) = docs fs"
    with assms show ?thesis by (simp add: valid_statuses_iff)
  next
    assume "\<exists>k d. docs (step toLowerCase op fs) = AList.update k d (docs fs)
         \<and> (d ''status'' = Some (FStr ''active'') \<or> d ''status'' = Some (FStr ''inactive'')
            \<or> (\<exists>d0. map_of (docs fs) k = Some d0 \<and> d ''status'' = d0 ''status''))"
    then obtain k d where
      u: "docs (step toLowerCase op fs) = AList.update k d (docs fs)" and
      s: "d ''status'' = Some (FStr ''active'') \<or> d ''status'' = Some (FStr ''inactive'')
            \<or> (\<exists>d0. map_of (docs fs) k = Some d0 \<and> d ''status'' = d0 ''status'')"
      by blast
    have ok: "d ''status'' = Some (FStr ''active'') \<or> d ''status'' = Some (FStr ''inactive'')"
    proof -
      { fix d0 assume d0: "map_of (docs fs) k = Some d0" "d ''status'' = d0 ''status''"
        then have "(k, d0) \<in> set (docs fs)" by (simp add: map_of_SomeD)
        with assms d0 have ?thesis by (auto simp add: valid_statuses_iff) }
      with s show ?thesis by blast
    qed
    show ?thesis
      unfolding valid_statuses_iff u
      using set_update_subset [of k d "docs fs"] ok assms
      by (auto simp add: valid_statuses_iff)
  qed
qed

lemma run_valid_statuses: "valid_statuses fs \<Longrightarrow> valid_statuses (run toLowerCase ops fs)"
  by (induction ops arbitrary: fs) (simp_all add: run_def step_valid_statuses)

text \<open>
  The status of a record after a step is the status the step's change gives it, and
  the status it had when the step makes no change to this record.
\<close>

lemma updatePatient_status:
  "stored_field (snd (updatePatient userId k updates fs)) pid ''status'' =
     (case fst (updatePatient userId k updates fs) of
        Inl e \<Rightarrow> stored_field fs pid ''status''
      | Inr u \<Rightarrow>
          (case upd_status updates of
             None \<Rightarrow> stored_field fs pid ''status''
           | Some s \<Rightarrow> if k = pid then Some (FStr (status_string s))
                       else stored_field fs pid ''status''))"
proof (cases "map_of (docs fs) k")
  case None
  then show ?thesis
    by (simp add: updatePatient_effect log_call_def stored_field_def)
next
  case (Some d)
  show ?thesis
  proof (cases "k = pid")
    case True
    with Some show ?thesis
      by (simp add: updatePatient_effect log_call_def stored_field_def update_conv'
            map_add_status split: option.splits)
  next
    case False
    with Some show ?thesis
      by (simp add: updatePatient_effect log_call_def stored_field_def update_conv'
            split: option.splits)
  qed
qed

lemma updatePatient_owner:
  assumes "fst (updatePatient userId pid updates fs) = Inr ()"
  shows "stored_field fs pid ''createdBy'' = Some (FStr userId)"
  using assms
  by (cases "map_of (docs fs) pid")
     (auto simp add: updatePatient_effect stored_field_def split: if_splits)

lemma createPatient_status:
  "stored_field (snd (createPatient newId userId pd fs)) pid ''status'' =
     (case fst (createPatient newId userId pd fs) of
        Inl e \<Rightarrow> stored_field fs pid ''status''
      | Inr p \<Rightarrow> if newId = pid then Some (FStr ''active'') else stored_field fs pid ''status'')"
proof -
  obtain r fs1 where c: "createPatient newId userId pd fs = (r, fs1)"
    by (cases "createPatient newId userId pd fs")
  from createPatient_effect [OF c] show ?thesis
    using c by (auto simp add: stored_field_def update_conv')
qed

lemma step_status:
  "stored_field (step toLowerCase op fs) pid ''status'' =
     (case status_change op fs of
        None \<Rightarrow> stored_field fs pid ''status''
      | Some (k, s) \<Rightarrow> if k = pid then Some (FStr (status_string s))
                       else stored_field fs pid ''status'')"
proof (cases op)
  case (Create newId userId pd)
  then show ?thesis
    by (simp add: createPatient_status split: sum.splits)
next
  case (Read userId k)
  then show ?thesis by (simp add: stored_field_def getPatient_docs)
next
  case (Listing userId filters)
  then show ?thesis by (simp add: stored_field_def getPatients_docs)
next
  case (Search userId t n)
  then show ?thesis by (simp add: stored_field_def searchPatients_docs)
next
  case (Update userId k updates)
  then show ?thesis
    by (simp add: updatePatient_status split: sum.splits option.splits)
next
  case (Deactivate userId k)
  then show ?thesis
    by (simp add: deactivatePatient_def updatePatient_status split: sum.splits)
next
  case (Reactivate userId k)
  then show ?thesis
    by (simp add: reactivatePatient_def updatePatient_status split: sum.splits)
next
  case (Outage down)
  then show ?thesis by (simp add: stored_field_def)
next
  case Tick
  then show ?thesis by (simp add: stored_field_def)
qed

lemma fold_status_last:
  "fold (\<lambda>(k, s) v. if k = pid then Some (FStr (status_string s)) else v) changes before =
     (case last_change pid changes of
        None \<Rightarrow> before
      | Some s \<Rightarrow> Some (FStr (status_string s)))"
proof (induction changes rule: rev_induct)
  case Nil
  then show ?case by (simp add: last_change_def)
next
  case (snoc c changes)
  then show ?case
    by (cases c) (simp add: last_change_def)
qed

lemma run_status_fold:
  "stored_field (run toLowerCase ops fs) pid ''status'' =
     fold (\<lambda>(k, s) v. if k = pid then Some (FStr (status_string s)) else v)
       (status_history toLowerCase ops fs) (stored_field fs pid ''status'')"
proof (induction ops arbitrary: fs)
  case Nil
  then show ?case by (simp add: run_def)
next
  case (Cons op ops)
  have "stored_field (run toLowerCase (op # ops) fs) pid ''status'' =
      stored_field (run toLowerCase ops (step toLowerCase op fs)) pid ''status''"
    by (simp add: run_def)
  also have "\<dots> = fold (\<lambda>(k, s) v. if k = pid then Some (FStr (status_string s)) else v)
       (status_history toLowerCase ops (step toLowerCase op fs))
       (stored_field (step toLowerCase op fs) pid ''status'')"
    by (rule Cons.IH)
  finally show ?case
    by (simp add: step_status split: option.splits)
qed

lemma run_status:
  "stored_field (run toLowerCase ops fs) pid ''status'' =
     (case last_change pid (status_history toLowerCase ops fs) of
        None \<Rightarrow> stored_field fs pid ''status''
      | Some s \<Rightarrow> Some (FStr (status_string s)))"
  by (simp only: run_status_fold fold_status_last)

lemma getPatients_active_only:
  assumes "p \<in> set (fst (getPatients toLowerCase userId
                           (filters\<lparr>status := Some Active\<rparr>) fs))"
  shows "p ''status'' = Some (FStr ''active'') \<and> p ''createdBy'' = Some (FStr userId)"
proof -
  from getPatients_member [OF assms] obtain pid d where
    "to_patient (clock fs) pid d = Some p" "d ''createdBy'' = Some (FStr userId)"
    "d ''status'' = Some (FStr (status_string Active))"
    by auto
  then show ?thesis
    using to_patient_field [of "clock fs" pid d p "''status''"]
      to_patient_field [of "clock fs" pid d p "''createdBy''"]
    by simp
qed

subsection \<open>Isolation of users\<close>

text \<open>
  Claim C2. When the record with the given id exists and was created by another user,
  \<open>getPatient\<close> returns null, in the current and in the earlier revision. The function
  returns a record or null and never throws (every failure is caught and turned into
  null), so there is no other way for it to report the foreign record.
\<close>

theorem getPatient_other_user_not_found:
  assumes "map_of (docs fs) pid = Some d"
    and "d ''createdBy'' = Some (FStr userB)"
    and "userA \<noteq> userB"
  shows "fst (getPatient userA pid fs) = None \<and> fst (getPatient_earlier userA pid fs) = None"
proof -
  from assms have "d ''createdBy'' \<noteq> Some (FStr userA)" by simp
  with assms(1) have "fst (getPatient userA pid fs) = None"
    by (rule getPatient_other_owner)
  then show ?thesis by (simp add: getPatient_earlier_eq)
qed

theorem getPatient_other_user_not_found_witness:
  "map_of (docs example_store) ''p1'' = Some doc_jane
   \<and> doc_jane ''createdBy'' = Some (FStr ''u1'')
   \<and> ''u2'' \<noteq> ''u1''
   \<and> fst (getPatient ''u2'' ''p1'' example_store) = None
   \<and> fst (getPatient_earlier ''u2'' ''p1'' example_store) = None
   \<and> fst (getPatient ''u1'' ''p1'' example_store) \<noteq> None"
proof -
  have h1: "map_of (docs example_store) ''p1'' = Some doc_jane"
    by (simp add: example_store_def)
  have h2: "doc_jane ''createdBy'' = Some (FStr ''u1'')"
    by (simp add: doc_jane_def)
  have h3: "''u2'' \<noteq> ''u1''" by simp
  have own: "fst (getPatient ''u1'' ''p1'' example_store) \<noteq> None"
    by (simp add: getPatient_def getDoc_def example_store_def doc_jane_def log_call_def
          to_patient_def toDate_or_now_def)
  from getPatient_other_user_not_found [OF h1 h2 h3] h1 h2 own show ?thesis by simp
qed

subsection \<open>Creating a record\<close>

lemma createPatient_succeeds:
  assumes "trim (name pd) \<noteq> []" "userId \<noteq> []" "\<not> offline fs"
  shows "\<exists>p fs1. createPatient newId userId pd fs = (Inr p, fs1)"
  using assms by (simp add: createPatient_def setDoc_def Let_def)

lemma createPatient_name:
  assumes "createPatient newId userId pd fs = (Inr p, fs1)"
  shows "trim (name pd) \<noteq> [] \<and> p ''name'' = Some (FStr (trim (name pd)))
         \<and> stored_field fs1 newId ''name'' = Some (FStr (trim (name pd)))"
  using assms
  by (auto simp add: createPatient_def setDoc_def log_call_def Let_def map_add_def
        stored_field_def update_conv' split: if_splits)

lemma createPatient_mrn:
  assumes "createPatient newId userId pd fs = (Inr p, fs1)"
  shows "p ''mrn'' = (if truthy (map_option trim (mrn pd))
                      then Some (FStr (trim (the (mrn pd)))) else None)
         \<and> stored_field fs1 newId ''mrn'' = p ''mrn''"
  using assms
  by (auto simp add: createPatient_def setDoc_def log_call_def Let_def map_add_def
        stored_field_def update_conv' split: if_splits)

lemma createPatient_dob:
  assumes "createPatient newId userId pd fs = (Inr p, fs1)"
  shows "p ''dob'' = (if truthy (map_option trim (dob pd))
                      then Some (FStr (trim (the (dob pd)))) else None)
         \<and> stored_field fs1 newId ''dob'' = p ''dob''"
  using assms
  by (auto simp add: createPatient_def setDoc_def log_call_def Let_def map_add_def
        stored_field_def update_conv' split: if_splits)

lemma createPatient_gender:
  assumes "createPatient newId userId pd fs = (Inr p, fs1)"
  shows "p ''gender'' = (if truthy (map_option gender_string (gender pd))
                         then Some (FStr (gender_string (the (gender pd)))) else None)
         \<and> stored_field fs1 newId ''gender'' = p ''gender''"
  using assms
  by (auto simp add: createPatient_def setDoc_def log_call_def Let_def map_add_def
        stored_field_def update_conv' split: if_splits)

lemma truthy_trim:
  "truthy (map_option trim v) \<longleftrightarrow> (\<exists>s. v = Some s \<and> trim s \<noteq> [])"
  by (cases v) (simp_all add: truthy_def)

text \<open>
  The current revision of \<open>createPatient\<close> does what claim C7 says. A create request
  that succeeds stores and returns the name trimmed. An optional field (MRN, date of
  birth, gender) that is omitted, or that is empty after trimming, is absent from the
  stored document and from the returned record; no optional field is ever present as the
  empty string. A request succeeds when the trimmed name and the user id are not empty
  and the store accepts the write (\<open>createPatient_succeeds\<close>); otherwise nothing is
  stored or returned.
\<close>

lemma createPatient_trims_and_omits:
  assumes "createPatient newId userId pd fs = (Inr p, fs1)"
  shows "p ''name'' = Some (FStr (trim (name pd)))
       \<and> stored_field fs1 newId ''name'' = Some (FStr (trim (name pd)))
       \<and> ((mrn pd = None \<or> trim (the (mrn pd)) = [])
            \<longrightarrow> p ''mrn'' = None \<and> stored_field fs1 newId ''mrn'' = None)
       \<and> ((dob pd = None \<or> trim (the (dob pd)) = [])
            \<longrightarrow> p ''dob'' = None \<and> stored_field fs1 newId ''dob'' = None)
       \<and> (gender pd = None
            \<longrightarrow> p ''gender'' = None \<and> stored_field fs1 newId ''gender'' = None)
       \<and> (\<forall>f \<in> {''mrn'', ''dob'', ''gender''}.
             p f \<noteq> Some (FStr []) \<and> stored_field fs1 newId f \<noteq> Some (FStr []))"
proof -
  note n = createPatient_name [OF assms]
  note m = createPatient_mrn [OF assms]
  note d = createPatient_dob [OF assms]
  note g = createPatient_gender [OF assms]
  have mrn_absent: "(mrn pd = None \<or> trim (the (mrn pd)) = [])
            \<longrightarrow> p ''mrn'' = None \<and> stored_field fs1 newId ''mrn'' = None"
    using m by (auto simp add: truthy_trim)
  have dob_absent: "(dob pd = None \<or> trim (the (dob pd)) = [])
            \<longrightarrow> p ''dob'' = None \<and> stored_field fs1 newId ''dob'' = None"
    using d by (auto simp add: truthy_trim)
  have gender_absent: "gender pd = None
            \<longrightarrow> p ''gender'' = None \<and> stored_field fs1 newId ''gender'' = None"
    using g by (auto simp add: truthy_def)
  have mrn_ne: "p ''mrn'' \<noteq> Some (FStr [])"
    using m by (auto simp add: truthy_trim)
  have dob_ne: "p ''dob'' \<noteq> Some (FStr [])"
    using d by (auto simp add: truthy_trim)
  have gender_ne: "p ''gender'' \<noteq> Some (FStr [])"
    using g by (auto simp add: truthy_def split: option.splits)
  have placeholders: "\<forall>f \<in> {''mrn'', ''dob'', ''gender''}.
             p f \<noteq> Some (FStr []) \<and> stored_field fs1 newId f \<noteq> Some (FStr [])"
    using mrn_ne dob_ne gender_ne m d g by simp
  from n mrn_absent dob_absent gender_absent placeholders show ?thesis by blast
qed

lemma createPatient_trims_and_omits_example:
  "\<exists>p fs1. createPatient ''p4'' ''u1''
              \<lparr>name = ''  Jane Doe  '', mrn = None, dob = Some ''  '', gender = None\<rparr>
              example_store = (Inr p, fs1)
     \<and> p ''name'' = Some (FStr ''Jane Doe'')
     \<and> stored_field fs1 ''p4'' ''name'' = Some (FStr ''Jane Doe'')
     \<and> p ''mrn'' = None \<and> stored_field fs1 ''p4'' ''mrn'' = None
     \<and> p ''dob'' = None \<and> stored_field fs1 ''p4'' ''dob'' = None
     \<and> p ''gender'' = None \<and> stored_field fs1 ''p4'' ''gender'' = None"
proof -
  let ?pd = "\<lparr>name = ''  Jane Doe  '', mrn = None, dob = Some ''  '', gender = None\<rparr>"
  have t: "trim ''  Jane Doe  '' = ''Jane Doe''" "trim ''  '' = []"
    by code_simp+
  have "\<exists>p fs1. createPatient ''p4'' ''u1'' ?pd example_store = (Inr p, fs1)"
    by (rule createPatient_succeeds) (simp_all add: t example_store_def)
  then obtain p fs1 where c: "createPatient ''p4'' ''u1'' ?pd example_store = (Inr p, fs1)"
    by blast
  from createPatient_trims_and_omits [OF c] c show ?thesis
    by (simp add: t)
qed

text \<open>A name that is one no-break space (U+00A0) is empty after trimming and is refused.\<close>

lemma createPatient_no_break_space_name:
  "createPatient ''p4'' ''u1''
     \<lparr>name = [CHR 0xC2, CHR 0xA0], mrn = None, dob = None, gender = None\<rparr> example_store
   = (Inl (Error ''Failed to create patient: Patient name is required''), example_store)"
proof -
  have "trim [CHR 0xC2, CHR 0xA0] = []"
    by code_simp
  then show ?thesis by (simp add: createPatient_def)
qed

text \<open>
  Claim C7. Every create request stores and returns the name trimmed, and every optional
  field that is omitted or empty after trimming is absent from the stored and returned
  record. The earlier revision of \<open>createPatient\<close> breaks this: it tests the date of
  birth with \<open>patientData.dob || undefined\<close>, without the trim that the current revision
  applies, so a date of birth of two spaces, which is empty after trimming, is stored
  and returned as it is, whatever the setting for undefined values.
\<close>

theorem createPatient_earlier_keeps_blank_dob:
  "trim ''  '' = []
   \<and> (\<exists>p fs1. createPatient_earlier ignoreUndefinedProperties ''p4'' ''u1''
                 \<lparr>name = ''Ann'', mrn = Some ''7'', dob = Some ''  '', gender = Some Female\<rparr>
                 example_store = (Inr p, fs1)
        \<and> p ''dob'' = Some (FStr ''  '')
        \<and> stored_field fs1 ''p4'' ''dob'' = Some (FStr ''  ''))"
proof -
  have t: "trim ''  '' = []" "trim ''7'' = ''7''" "trim ''Ann'' = ''Ann''"
    by code_simp+
  have "\<exists>p fs1. createPatient_earlier ignoreUndefinedProperties ''p4'' ''u1''
                 \<lparr>name = ''Ann'', mrn = Some ''7'', dob = Some ''  '', gender = Some Female\<rparr>
                 example_store = (Inr p, fs1)
        \<and> p ''dob'' = Some (FStr ''  '')
        \<and> stored_field fs1 ''p4'' ''dob'' = Some (FStr ''  '')"
    by (simp add: createPatient_earlier_def setDoc_def log_call_def Let_def truthy_def t
          example_store_def stored_field_def update_conv' map_add_def)
  with t(1) show ?thesis by simp
qed

subsection \<open>Listing and the status of a record\<close>

text \<open>
  Claim C8. A listing with the filter status active returns only records whose status
  is active. No operation removes a document. Starting from a directory in which every
  status is active or inactive, every sequence of operations keeps it so. After any
  sequence of operations the stored status of a record is the status that the last
  change of the sequence gave it, and the status it had before when the sequence made no
  change to it: the status moves only by a deactivation or reactivation that succeeds
  (an update that carries the status, which is what the two are) and is set by the
  record's creation; a refused call and every other operation leave it alone. When the
  last change to a record is a deactivation, no listing of active records, for any user,
  returns the record.
\<close>

theorem active_listing_excludes_deactivated:
  "(\<forall>p \<in> set (fst (getPatients toLowerCase userId (filters\<lparr>status := Some Active\<rparr>) fs)).
       p ''status'' = Some (FStr ''active''))
   \<and> fst ` set (docs fs) \<subseteq> fst ` set (docs (run toLowerCase ops fs))
   \<and> (valid_statuses fs \<longrightarrow> valid_statuses (run toLowerCase ops fs))
   \<and> stored_field (run toLowerCase ops fs) pid ''status'' =
       (case last_change pid (status_history toLowerCase ops fs) of
          None \<Rightarrow> stored_field fs pid ''status''
        | Some s \<Rightarrow> Some (FStr (status_string s)))
   \<and> (last_change pid (status_history toLowerCase ops fs) = Some Inactive
        \<longrightarrow> (\<forall>d now. map_of (docs (run toLowerCase ops fs)) pid = Some d
                \<longrightarrow> (\<forall>p \<in> set (fst (getPatients toLowerCase userId
                                        (filters\<lparr>status := Some Active\<rparr>)
                                        (run toLowerCase ops fs))).
                       to_patient now pid d \<noteq> Some p)))"
proof -
  have listing: "\<forall>p \<in> set (fst (getPatients toLowerCase userId
                                  (filters\<lparr>status := Some Active\<rparr>) fs)).
       p ''status'' = Some (FStr ''active'')" for fs
    using getPatients_active_only by blast
  have after: "\<forall>d now. map_of (docs (run toLowerCase ops fs)) pid = Some d
                \<longrightarrow> (\<forall>p \<in> set (fst (getPatients toLowerCase userId
                                        (filters\<lparr>status := Some Active\<rparr>)
                                        (run toLowerCase ops fs))).
                       to_patient now pid d \<noteq> Some p)"
    if last: "last_change pid (status_history toLowerCase ops fs) = Some Inactive"
  proof -
    let ?fs = "run toLowerCase ops fs"
    have inactive: "stored_field ?fs pid ''status'' = Some (FStr ''inactive'')"
      by (simp add: run_status last)
    have "to_patient now pid d \<noteq> Some p"
      if d: "map_of (docs ?fs) pid = Some d"
        and p: "p \<in> set (fst (getPatients toLowerCase userId
                                (filters\<lparr>status := Some Active\<rparr>) ?fs))"
      for d now p
    proof
      assume tp: "to_patient now pid d = Some p"
      have "p ''status'' = d ''status''"
        by (rule to_patient_field [OF tp]) simp_all
      also have "d ''status'' = Some (FStr ''inactive'')"
        using inactive d by (simp add: stored_field_def)
      finally have "p ''status'' = Some (FStr ''inactive'')" .
      moreover have "p ''status'' = Some (FStr ''active'')"
        using listing p by blast
      ultimately show False by simp
    qed
    then show ?thesis by blast
  qed
  show ?thesis
    using listing run_keeps_ids [of fs toLowerCase ops] run_valid_statuses [of fs toLowerCase ops]
      run_status [of toLowerCase ops fs pid] after
    by blast
qed

theorem active_listing_excludes_deactivated_witness:
  "valid_statuses example_store
   \<and> status_history ascii_toLowerCase
        [Deactivate ''u1'' ''p1'', Tick, Reactivate ''u2'' ''p1'', Search ''u1'' ''jane'' 5,
         Update ''u1'' ''p2'' \<lparr>upd_name = Some ''Bobby'', upd_mrn = None,
           upd_dob = None, upd_gender = None, upd_status = None\<rparr>]
        example_store = [(''p1'', Inactive)]
   \<and> stored_field
        (run ascii_toLowerCase
           [Deactivate ''u1'' ''p1'', Tick, Reactivate ''u2'' ''p1'', Search ''u1'' ''jane'' 5,
            Update ''u1'' ''p2'' \<lparr>upd_name = Some ''Bobby'', upd_mrn = None,
              upd_dob = None, upd_gender = None, upd_status = None\<rparr>]
           example_store) ''p1'' ''status''
      = Some (FStr ''inactive'')
   \<and> stored_field
        (run ascii_toLowerCase
           [Deactivate ''u1'' ''p1'', Tick, Reactivate ''u2'' ''p1'', Search ''u1'' ''jane'' 5,
            Update ''u1'' ''p2'' \<lparr>upd_name = Some ''Bobby'', upd_mrn = None,
              upd_dob = None, upd_gender = None, upd_status = None\<rparr>]
           example_store) ''p2'' ''status''
      = Some (FStr ''active'')
   \<and> valid_statuses
        (run ascii_toLowerCase
           [Deactivate ''u1'' ''p1'', Tick, Reactivate ''u2'' ''p1'', Search ''u1'' ''jane'' 5,
            Update ''u1'' ''p2'' \<lparr>upd_name = Some ''Bobby'', upd_mrn = None,
              upd_dob = None, upd_gender = None, upd_status = None\<rparr>]
           example_store)
   \<and> map (\<lambda>p. p ''name'')
        (fst (getPatients ascii_toLowerCase ''u1''
           \<lparr>searchTerm = None, status = Some Active, sortBy = None, sortOrder = None\<rparr>
           (run ascii_toLowerCase
              [Deactivate ''u1'' ''p1'', Tick, Reactivate ''u2'' ''p1'', Search ''u1'' ''jane'' 5,
               Update ''u1'' ''p2'' \<lparr>upd_name = Some ''Bobby'', upd_mrn = None,
                 upd_dob = None, upd_gender = None, upd_status = None\<rparr>]
              example_store)))
      = [Some (FStr ''Bobby'')]"
proof -
  let ?ops = "[Deactivate ''u1'' ''p1'', Tick, Reactivate ''u2'' ''p1'', Search ''u1'' ''jane'' 5,
         Update ''u1'' ''p2'' \<lparr>upd_name = Some ''Bobby'', upd_mrn = None,
           upd_dob = None, upd_gender = None, upd_status = None\<rparr>]"
  let ?flt = "\<lparr>searchTerm = None, status = None, sortBy = None, sortOrder = None\<rparr>"
  have v: "valid_statuses example_store"
    by (simp add: valid_statuses_def example_store_def doc_jane_def doc_bob_def doc_rob_def)
  have h: "status_history ascii_toLowerCase ?ops example_store = [(''p1'', Inactive)]"
    by code_simp
  have l1: "last_change ''p1'' [(''p1'', Inactive)] = Some Inactive"
    by (simp add: last_change_def)
  have l2: "last_change ''p2'' [(''p1'', Inactive)] = None"
    by (simp add: last_change_def)
  have before: "stored_field example_store ''p2'' ''status'' = Some (FStr ''active'')"
    by (simp add: stored_field_def example_store_def doc_bob_def)
  have names: "map (\<lambda>p. p ''name'')
        (fst (getPatients ascii_toLowerCase ''u1''
           \<lparr>searchTerm = None, status = Some Active, sortBy = None, sortOrder = None\<rparr>
           (run ascii_toLowerCase ?ops example_store)))
      = [Some (FStr ''Bobby'')]"
    by code_simp
  from active_listing_excludes_deactivated
         [of ascii_toLowerCase "''u1''" ?flt example_store ?ops "''p1''"]
       active_listing_excludes_deactivated
         [of ascii_toLowerCase "''u1''" ?flt example_store ?ops "''p2''"]
       v h l1 l2 before names
  show ?thesis by simp
qed

subsection \<open>Searching\<close>

lemma slice0_length: "length (slice0 xs (int n)) \<le> n"
  by (simp add: slice0_def)

lemma set_slice0: "set (slice0 xs n) \<subseteq> set xs"
  by (simp add: slice0_def set_take_subset)

lemma searchPatients_member:
  assumes "p \<in> set (fst (searchPatients toLowerCase userId term n fs))"
  shows "p \<in> set (fst (getPatients toLowerCase userId
           (\<lparr>searchTerm = Some (trim term), status = None, sortBy = Some SortName,
             sortOrder = Some Asc\<rparr>\<lparr>status := Some Active\<rparr>) fs))"
  using assms
  by (auto simp add: searchPatients_def split: if_splits prod.splits
        dest: subsetD [OF set_slice0])

text \<open>
  Claim C10. For every owner, search term and bound \<open>n\<close>, a number of records,
  \<open>searchPatients\<close> returns at most \<open>n\<close> records. Whatever is passed as \<open>maxResults\<close>,
  each record returned is owned by the requesting user and has status active; and when
  the search term is empty or only white space the result is the empty list and the store
  is not called: the state, with its log of calls, is returned unchanged.
\<close>

theorem searchPatients_bounded:
  "length (fst (searchPatients toLowerCase userId term (int n) fs)) \<le> n
   \<and> (\<forall>p \<in> set (fst (searchPatients toLowerCase userId term maxResults fs)).
         p ''createdBy'' = Some (FStr userId) \<and> p ''status'' = Some (FStr ''active''))
   \<and> (trim term = []
        \<longrightarrow> searchPatients toLowerCase userId term maxResults fs = ([], fs)
          \<and> calls (snd (searchPatients toLowerCase userId term maxResults fs)) = calls fs)"
proof -
  have "length (fst (searchPatients toLowerCase userId term (int n) fs)) \<le> n"
    using slice0_length
    by (auto simp add: searchPatients_def split: prod.splits)
  moreover have "p ''createdBy'' = Some (FStr userId) \<and> p ''status'' = Some (FStr ''active'')"
    if "p \<in> set (fst (searchPatients toLowerCase userId term maxResults fs))" for p
    using getPatients_active_only [OF searchPatients_member [OF that]] by simp
  moreover have "searchPatients toLowerCase userId term maxResults fs = ([], fs)
                   \<and> calls (snd (searchPatients toLowerCase userId term maxResults fs)) = calls fs"
    if "trim term = []"
    using that by (simp add: searchPatients_def)
  ultimately show ?thesis by blast
qed

theorem searchPatients_bounded_witness:
  "length (fst (searchPatients ascii_toLowerCase ''u1'' ''o'' (int 1) example_store)) \<le> 1
   \<and> map (\<lambda>p. p ''name'') (fst (searchPatients ascii_toLowerCase ''u1'' ''o'' 1 example_store))
       = [Some (FStr ''Bob'')]
   \<and> list_all (\<lambda>p. p ''createdBy'' = Some (FStr ''u1'') \<and> p ''status'' = Some (FStr ''active''))
        (fst (searchPatients ascii_toLowerCase ''u1'' ''o'' 1 example_store))
   \<and> trim ''   '' = []
   \<and> searchPatients ascii_toLowerCase ''u1'' ''   '' 1 example_store = ([], example_store)
   \<and> trim [CHR 0xC2, CHR 0xA0] = []
   \<and> searchPatients ascii_toLowerCase ''u1'' [CHR 0xC2, CHR 0xA0] 1 example_store
       = ([], example_store)"
proof -
  have t: "trim ''   '' = []" "trim [CHR 0xC2, CHR 0xA0] = []"
    by code_simp+
  have names: "map (\<lambda>p. p ''name'')
        (fst (searchPatients ascii_toLowerCase ''u1'' ''o'' 1 example_store))
       = [Some (FStr ''Bob'')]"
    by code_simp
  from searchPatients_bounded [of ascii_toLowerCase "''u1''" "''o''" 1 example_store 1]
       searchPatients_bounded [of ascii_toLowerCase "''u1''" "''   ''" 1 example_store 1]
       searchPatients_bounded
         [of ascii_toLowerCase "''u1''" "[CHR 0xC2, CHR 0xA0]" 1 example_store 1]
       t names
  show ?thesis by (simp add: list_all_iff)
qed

subsection \<open>The two revisions of the update\<close>

lemma updatePatient_keeps_mrn:
  assumes "fst (updatePatient userId pid updates fs) = Inr ()"
    and "upd_mrn updates = Some m" "trim m = []"
  shows "stored_field (snd (updatePatient userId pid updates fs)) pid ''mrn''
           = stored_field fs pid ''mrn''"
  using assms
  by (cases "map_of (docs fs) pid")
     (auto simp add: updatePatient_effect log_call_def stored_field_def update_conv' map_add_def
        build_updateData_mrn split: if_splits)

lemma updatePatient_earlier_nulls_mrn:
  assumes "fst (updatePatient_earlier userId pid updates fs) = Inr ()"
    and "upd_mrn updates = Some m" "trim m = []"
  shows "stored_field (snd (updatePatient_earlier userId pid updates fs)) pid ''mrn''
           = Some FNull"
  using assms
  by (cases "map_of (docs fs) pid")
     (auto simp add: updatePatient_earlier_effect log_call_def stored_field_def update_conv'
        map_add_def build_updateData_earlier_mrn split: if_splits)

text \<open>
  Claim C9. The two revisions of \<open>updatePatient\<close> differ: there is a directory, a record
  with a stored MRN and an update whose MRN is the empty string, on which both revisions
  succeed, the current one leaves the stored MRN as it was and the earlier one
  overwrites it with null.
\<close>

theorem updatePatient_revisions_differ:
  "\<exists>fs userId pid updates v.
      upd_mrn updates = Some []
      \<and> stored_field fs pid ''mrn'' = Some (FStr v)
      \<and> fst (updatePatient userId pid updates fs) = Inr ()
      \<and> stored_field (snd (updatePatient userId pid updates fs)) pid ''mrn'' = Some (FStr v)
      \<and> fst (updatePatient_earlier userId pid updates fs) = Inr ()
      \<and> stored_field (snd (updatePatient_earlier userId pid updates fs)) pid ''mrn''
           = Some FNull"
proof -
  let ?u = "\<lparr>upd_name = None, upd_mrn = Some [], upd_dob = None, upd_gender = None,
             upd_status = None\<rparr>"
  have l: "map_of (docs example_store) ''p2'' = Some doc_bob"
    by (simp add: example_store_def)
  have tp: "to_patient 2 ''p2'' doc_bob \<noteq> None"
    by (simp add: to_patient_def toDate_or_now_def doc_bob_def)
  have st: "stored_field example_store ''p2'' ''mrn'' = Some (FStr ''12a'')"
    by (simp add: stored_field_def l) (simp add: doc_bob_def)
  have t: "trim [] = []"
    by (simp add: trim_def trimStart_def trimEnd_def)
  have c: "fst (updatePatient ''u1'' ''p2'' ?u example_store) = Inr ()"
    using tp by (simp add: updatePatient_effect l) (simp add: example_store_def doc_bob_def)
  have e: "fst (updatePatient_earlier ''u1'' ''p2'' ?u example_store) = Inr ()"
    using tp by (simp add: updatePatient_earlier_effect l)
       (simp add: example_store_def doc_bob_def)
  have "stored_field (snd (updatePatient ''u1'' ''p2'' ?u example_store)) ''p2'' ''mrn''
          = Some (FStr ''12a'')"
    using updatePatient_keeps_mrn [OF c _ t] st by simp
  moreover have "stored_field (snd (updatePatient_earlier ''u1'' ''p2'' ?u example_store))
          ''p2'' ''mrn'' = Some FNull"
    using updatePatient_earlier_nulls_mrn [OF e _ t] by simp
  ultimately show ?thesis
    using c e st by (intro exI [of _ example_store] exI [of _ "''u1''"] exI [of _ "''p2''"]
        exI [of _ ?u] exI [of _ "''12a''"]) simp
qed

end
